theory Spec2Isabelle
  imports Complex_Main "HOL-Library.Sublist"
begin

section \<open>Texts\<close>

text \<open>
  A Python \<open>str\<close> is modelled as a \<open>string\<close>, one \<open>char\<close> per code point; the texts
  of the model are those over the code points 0 to 255. On these the tests for white
  space, for digits and for decimal digits are Python's: \<open>str.isdigit\<close> also holds of the
  superscripts two, three and one (U+00B2, U+00B3, U+00B9), which are no decimal digits
  and which \<open>int\<close> refuses. The case mappings are Python's on the ASCII range and leave
  every other character as it is; the program looks into a case-mapped text only for
  ASCII words. The only code point above 255 that the program itself writes is the emoji
  that opens a social post; it is one character of the text and is represented by
  \<open>siren\<close>. Python's integers are unbounded and are modelled by \<open>int\<close>. Coordinates are
  floating-point numbers that the program passes along and never computes with; they are
  modelled by \<open>real\<close>. What the program writes to its log is not modelled.
\<close>

definition newline :: char where
  "newline = CHR 0x0A"

definition comma :: char where
  "comma = CHR '',''"

definition colon :: char where
  "colon = CHR '':''"

definition siren :: char where
  "siren = CHR 0xFF"

definition isspace :: "char \<Rightarrow> bool" where
  \<comment> \<open>\<open>str.isspace\<close>: tab, line feed, vertical tab, form feed, carriage return, the four
      separators 0x1C..0x1F, the blank, the next-line control 0x85 and the no-break
      space 0xA0\<close>
  "isspace c = ((of_char c :: int) \<in> {9, 10, 11, 12, 13, 28, 29, 30, 31, 32, 133, 160})"

definition isdecimal :: "char \<Rightarrow> bool" where
  \<comment> \<open>\<open>str.isdecimal\<close>: the ten digits that \<open>int\<close> reads\<close>
  "isdecimal c = (48 \<le> (of_char c :: int) \<and> (of_char c :: int) \<le> 57)"

definition isdigit :: "char \<Rightarrow> bool" where
  \<comment> \<open>\<open>str.isdigit\<close>: the decimal digits and the superscripts 0xB2, 0xB3 and 0xB9\<close>
  "isdigit c = (isdecimal c \<or> (of_char c :: int) \<in> {178, 179, 185})"

definition lower_char :: "char \<Rightarrow> char" where
  "lower_char c =
     (if 65 \<le> (of_char c :: int) \<and> (of_char c :: int) \<le> 90
      then char_of (of_char c + 32 :: int) else c)"

definition upper_char :: "char \<Rightarrow> char" where
  "upper_char c =
     (if 97 \<le> (of_char c :: int) \<and> (of_char c :: int) \<le> 122
      then char_of (of_char c - 32 :: int) else c)"

definition lower :: "string \<Rightarrow> string" where
  "lower t = map lower_char t"

definition upper :: "string \<Rightarrow> string" where
  "upper t = map upper_char t"

definition strip :: "string \<Rightarrow> string" where
  \<comment> \<open>\<open>s.strip()\<close>: white space removed at both ends\<close>
  "strip t = rev (dropWhile isspace (rev (dropWhile isspace t)))"

fun split :: "char \<Rightarrow> string \<Rightarrow> string list" where
  \<comment> \<open>\<open>s.split(sep)\<close> for a separator of one character: \<open>"".split(",")\<close> is \<open>[""]\<close>\<close>
  "split sep [] = [[]]"
| "split sep (c # cs) =
     (if c = sep then [] # split sep cs
      else (case split sep cs of [] \<Rightarrow> [[c]] | w # ws \<Rightarrow> (c # w) # ws))"

definition replace :: "char \<Rightarrow> char \<Rightarrow> string \<Rightarrow> string" where
  \<comment> \<open>\<open>s.replace(old, new)\<close> for single characters\<close>
  "replace old new t = map (\<lambda>c. if c = old then new else c) t"

fun contains :: "string \<Rightarrow> string \<Rightarrow> bool" where
  \<comment> \<open>\<open>k in s\<close> on strings: \<open>k\<close> occurs in \<open>s\<close> as a contiguous piece\<close>
  "contains k [] = (k = [])"
| "contains k (c # cs) = (prefix k (c # cs) \<or> contains k cs)"

definition digit_value :: "char \<Rightarrow> int" where
  "digit_value c = of_char c - 48"

definition int_of_digits :: "string \<Rightarrow> int" where
  "int_of_digits ds = foldl (\<lambda>acc c. 10 * acc + digit_value c) 0 ds"

datatype error = ApiError | ValueError | IndexError | ImportError | RuntimeError

definition py_int :: "nat \<Rightarrow> string \<Rightarrow> error + int" where
  \<comment> \<open>\<open>int(s)\<close> for the strings the program passes to it, which hold only characters
      that \<open>str.isdigit\<close> accepts: the decimal value when \<open>s\<close> is not empty, holds
      decimal digits only and has no more of them than the interpreter converts;
      \<open>ValueError\<close> otherwise. The first argument is the interpreter's limit on the
      number of digits, \<open>sys.get_int_max_str_digits()\<close>: 4300 unless it is set otherwise,
      0 when there is no limit\<close>
  "py_int maxd ds =
     (if ds \<noteq> [] \<and> list_all isdecimal ds \<and> (maxd = 0 \<or> length ds \<le> maxd)
      then Inr (int_of_digits ds) else Inl ValueError)"

function str_digits :: "int \<Rightarrow> string" where
  \<comment> \<open>the decimal digits of a number that is not negative\<close>
  "str_digits i =
     (if i < 10 then [char_of (48 + i)]
      else str_digits (i div 10) @ [char_of (48 + i mod 10)])"
  by pat_completeness auto
termination
  by (relation "measure nat") auto

declare str_digits.simps [simp del]

definition str_int :: "int \<Rightarrow> string" where
  \<comment> \<open>how an f-string renders an integer\<close>
  "str_int i = (if i < 0 then CHR ''-'' # str_digits (- i) else str_digits i)"

section \<open>The keyword heuristic for the event type\<close>

definition infer_event_type :: "string \<Rightarrow> string" where
  "infer_event_type t =
     (let low = lower t in
      if list_ex (\<lambda>k. contains k low) [''war'', ''conflict'', ''battle''] then ''War''
      else if list_ex (\<lambda>k. contains k low) [''famine'', ''hunger'', ''starvation''] then ''Famine''
      else if list_ex (\<lambda>k. contains k low) [''flood'', ''storm'', ''hurricane'', ''typhoon''] then ''Flood''
      else if list_ex (\<lambda>k. contains k low) [''earthquake'', ''quake''] then ''Earthquake''
      else if list_ex (\<lambda>k. contains k low) [''drought''] then ''Drought''
      else ''Other'')"

section \<open>Data model\<close>

text \<open>
  A raw item is a Python dictionary from keys to values; the source adapters store a
  string or \<open>None\<close> under each key.
\<close>

datatype pyval = PNone | PStr string

type_synonym article = "string \<rightharpoonup> pyval"

definition get_default :: "article \<Rightarrow> string \<Rightarrow> pyval \<Rightarrow> pyval" where
  \<comment> \<open>\<open>d.get(key, default)\<close>\<close>
  "get_default d k dflt = (case d k of None \<Rightarrow> dflt | Some v \<Rightarrow> v)"

definition get :: "article \<Rightarrow> string \<Rightarrow> pyval" where
  \<comment> \<open>\<open>d.get(key)\<close>\<close>
  "get d k = get_default d k PNone"

definition fmt :: "pyval \<Rightarrow> string" where
  \<comment> \<open>how an f-string renders a value\<close>
  "fmt v = (case v of PNone \<Rightarrow> ''None'' | PStr t \<Rightarrow> t)"

definition or_else :: "pyval \<Rightarrow> string \<Rightarrow> string" where
  \<comment> \<open>\<open>v or dflt\<close>: \<open>None\<close> and the empty string are false\<close>
  "or_else v dflt = (case v of PNone \<Rightarrow> dflt | PStr t \<Rightarrow> if t = [] then dflt else t)"

record event_record =
  timestamp :: string
  event_id :: string
  location :: string
  lat :: real
  lng :: real
  event_type :: string
  title :: pyval
  description :: pyval
  summary :: string
  people_affected :: int
  severity_score :: int
  donation_links :: "string list"
  source_url :: pyval

text \<open>
  A cell of the row appended to the sheet. The last cell of a row is
  \<open>json.dumps(donation_links)\<close>; the serialisation is kept abstract.
\<close>

datatype cell = CStr string | CFloat real | CInt int | CJsonDumps "string list"

section \<open>Collaborators\<close>

text \<open>
  The four fixed instructions sent to the completion service, the reading of the
  geocoder's reply that \<open>geocode\<close> makes, and a reading of the clock.
\<close>

datatype prompt = Classify | Impact | Summary | Donations

datatype geo_data = NoResults | Geometry "real option" "real option"

datatype datetime = Datetime (isoformat: string) (year: string) (month: string) (day: string)

text \<open>
  Every attempt to reach a collaborator is recorded, in order, whether or not it
  succeeds.
\<close>

datatype effect =
    ChatCompletion prompt string
  | OpenCage string
  | SheetAppend "cell list"
  | GcsUpload string event_record
  | GcsMakePublic string
  | UpdateStatus string

text \<open>
  The environment of a run: which credentials and libraries are present, what each
  collaborator answers to a request (\<open>Inl\<close> when the call raises, for any reason,
  including a reply of the wrong shape; equal requests get equal answers), the
  sources of fresh identifiers and of time, indexed by the number of readings made so far,
  and the interpreter's limit on the digits of a number that \<open>int\<close> converts.
\<close>

record env =
  openai_api_key :: bool
  opencage_api_key :: bool
  google_libraries :: bool
  google_sheet_credentials :: bool
  storage_library :: bool
  gcs_bucket_name :: bool
  twitter_credentials :: bool
  tweepy_installed :: bool
  chat_completion :: "prompt \<Rightarrow> string \<Rightarrow> error + string"
  opencage :: "string \<Rightarrow> error + geo_data"
  sheets_append :: "cell list \<Rightarrow> error + unit"
  gcs_upload :: "string \<Rightarrow> event_record \<Rightarrow> error + unit"
  gcs_make_public :: "string \<Rightarrow> error + unit"
  update_status :: "string \<Rightarrow> error + unit"
  uuid4 :: "nat \<Rightarrow> string"
  utcnow :: "nat \<Rightarrow> datetime"
  int_max_str_digits :: nat

record state =
  calls :: "effect list"
  ticks :: nat

definition emit :: "effect \<Rightarrow> state \<Rightarrow> state" where
  "emit e s = s\<lparr>calls := calls s @ [e]\<rparr>"

definition tick :: "state \<Rightarrow> state" where
  "tick s = s\<lparr>ticks := Suc (ticks s)\<rparr>"

section \<open>Location extraction\<close>

text \<open>
  The body of \<open>extract_location\<close> is its documentation string and nothing else, so the
  function returns \<open>None\<close> for every text.
\<close>

definition extract_location :: "string \<Rightarrow> pyval" where
  "extract_location t = PNone"

section \<open>Enrichment\<close>

definition classify_crisis :: "env \<Rightarrow> state \<Rightarrow> string \<Rightarrow> string \<times> state" where
  "classify_crisis e s t =
     (if \<not> openai_api_key e then (''NOT CRISIS'', s)
      else
        let s' = emit (ChatCompletion Classify t) s in
        case chat_completion e Classify t of
          Inl exc \<Rightarrow> (''NOT CRISIS'', s')
        | Inr content \<Rightarrow>
            let classification = upper (strip content) in
            (if contains ''CRISIS'' classification then ''CRISIS'' else ''NOT CRISIS'', s'))"

definition impact_line :: "nat \<Rightarrow> int \<times> int \<Rightarrow> string \<Rightarrow> int \<times> int" where
  \<comment> \<open>one round of the loop over the lines of the reply, under the interpreter's limit
      on digits\<close>
  "impact_line maxd ps line =
     (case ps of (people, severity) \<Rightarrow>
        if colon \<in> set line then
          let key = takeWhile (\<lambda>c. c \<noteq> colon) line;
              val = tl (dropWhile (\<lambda>c. c \<noteq> colon) line)
          in
            if prefix ''people'' (strip (lower key)) then
              (case py_int maxd (filter isdigit val) of
                 Inr n \<Rightarrow> (n, severity)
               | Inl exc \<Rightarrow> (0, severity))
            else if prefix ''severity'' (strip (lower key)) then
              (case py_int maxd (filter isdigit val) of
                 Inr n \<Rightarrow> (people, n)
               | Inl exc \<Rightarrow> (people, 0))
            else (people, severity)
        else (people, severity))"

definition estimate_impact :: "env \<Rightarrow> state \<Rightarrow> string \<Rightarrow> (int \<times> int) \<times> state" where
  "estimate_impact e s t =
     (if \<not> openai_api_key e then ((0, 0), s)
      else
        let s' = emit (ChatCompletion Impact (''Description: '' @ t)) s in
        case chat_completion e Impact (''Description: '' @ t) of
          Inl exc \<Rightarrow> ((0, 0), s')
        | Inr reply \<Rightarrow>
            let content = strip reply in
            (foldl (impact_line (int_max_str_digits e)) (0, 0) (split newline content), s'))"

definition generate_summary :: "env \<Rightarrow> state \<Rightarrow> string \<Rightarrow> string \<times> state" where
  "generate_summary e s t =
     (if \<not> openai_api_key e then ([], s)
      else
        let s' = emit (ChatCompletion Summary t) s in
        case chat_completion e Summary t of
          Inl exc \<Rightarrow> ([], s')
        | Inr reply \<Rightarrow> (strip reply, s'))"

definition fallback_links :: "string list" where
  "fallback_links = [''https://www.directrelief.org/'', ''https://www.unhcr.org/'']"

definition suggest_donations :: "env \<Rightarrow> state \<Rightarrow> string \<Rightarrow> string list \<times> state" where
  "suggest_donations e s ty =
     (if \<not> openai_api_key e then (fallback_links, s)
      else
        let s' = emit (ChatCompletion Donations (''Event type: '' @ ty)) s in
        case chat_completion e Donations (''Event type: '' @ ty) of
          Inl exc \<Rightarrow> (fallback_links, s')
        | Inr reply \<Rightarrow>
            let content = strip reply;
                links = filter (\<lambda>item. item \<noteq> [])
                          (map strip (split comma (replace newline comma content)))
            in (take 3 links, s'))"

definition geocode :: "env \<Rightarrow> state \<Rightarrow> string \<Rightarrow> (real \<times> real) \<times> state" where
  "geocode e s loc =
     (if \<not> opencage_api_key e \<or> loc = [] then ((0, 0), s)
      else
        let s' = emit (OpenCage loc) s in
        case opencage e loc of
          Inl exc \<Rightarrow> ((0, 0), s')
        | Inr NoResults \<Rightarrow> ((0, 0), s')
        | Inr (Geometry glat glng) \<Rightarrow>
            ((case glat of None \<Rightarrow> 0 | Some x \<Rightarrow> x, case glng of None \<Rightarrow> 0 | Some y \<Rightarrow> y), s'))"

section \<open>Sinks\<close>

definition write_to_sheet :: "env \<Rightarrow> state \<Rightarrow> cell list \<Rightarrow> state" where
  "write_to_sheet e s row =
     (if \<not> google_libraries e then s
      else if \<not> google_sheet_credentials e then s
      else
        let s' = emit (SheetAppend row) s in
        case sheets_append e row of Inl exc \<Rightarrow> s' | Inr u \<Rightarrow> s')"

definition save_to_gcs :: "env \<Rightarrow> state \<Rightarrow> string \<Rightarrow> event_record \<Rightarrow> state" where
  "save_to_gcs e s eid data =
     (if \<not> storage_library e then s
      else if \<not> gcs_bucket_name e then s
      else
        let now = utcnow e (ticks s);
            s1 = tick s;
            key = ''events/'' @ year now @ ''/'' @ month now @ ''/'' @ day now @ ''/''
                    @ eid @ ''.json'';
            s2 = emit (GcsUpload key data) s1
        in
          case gcs_upload e key data of
            Inl exc \<Rightarrow> s2
          | Inr u \<Rightarrow>
              let s3 = emit (GcsMakePublic key) s2 in
              (case gcs_make_public e key of Inl exc \<Rightarrow> s3 | Inr v \<Rightarrow> s3))"

definition tweet_text :: "event_record \<Rightarrow> error + string" where
  \<comment> \<open>the f-string of both posting functions; \<open>donation_links[0]\<close> raises on an empty list\<close>
  "tweet_text ev =
     (case donation_links ev of
        [] \<Rightarrow> Inl IndexError
      | link # rest \<Rightarrow>
          Inr (siren # '' Crisis in '' @ location ev @ '': '' @ str_int (people_affected ev)
                 @ '' affected by '' @ event_type ev @ [newline]
                 @ summary ev @ [newline]
                 @ ''Help: '' @ link))"

definition tweet_attempt :: "env \<Rightarrow> state \<Rightarrow> event_record \<Rightarrow> (error + unit) \<times> state" where
  \<comment> \<open>the guarded block of \<open>tweet_crisis\<close>\<close>
  "tweet_attempt e s ev =
     (if \<not> tweepy_installed e then (Inl ImportError, s)
      else
        case tweet_text ev of
          Inl exc \<Rightarrow> (Inl exc, s)
        | Inr text \<Rightarrow>
            (update_status e (take 280 text), emit (UpdateStatus (take 280 text)) s))"

definition tweet_crisis :: "env \<Rightarrow> state \<Rightarrow> event_record \<Rightarrow> (error + unit) \<times> state" where
  "tweet_crisis e s ev =
     (if \<not> twitter_credentials e then (Inr (), s)
      else
        case tweet_attempt e s ev of
          (Inl exc, s') \<Rightarrow> (Inr (), s')
        | (Inr u, s') \<Rightarrow> (Inr (), s'))"

definition post_crisis_tweet :: "env \<Rightarrow> state \<Rightarrow> event_record \<Rightarrow> (error + unit) \<times> state" where
  \<comment> \<open>the stand-alone posting function of the tweet bot: nothing is caught\<close>
  "post_crisis_tweet e s ev =
     (if \<not> tweepy_installed e then (Inl RuntimeError, s)
      else if \<not> twitter_credentials e then (Inl RuntimeError, s)
      else
        case tweet_text ev of
          Inl exc \<Rightarrow> (Inl exc, s)
        | Inr text \<Rightarrow>
            (update_status e (take 280 text), emit (UpdateStatus (take 280 text)) s))"

section \<open>The pipeline of one item and the batch\<close>

text \<open>
  \<open>process_event\<close> returns \<open>None\<close> on both of its paths; the model returns in addition
  the record it has assembled, \<open>None\<close> for an item that was filtered out.
\<close>

definition process_event :: "env \<Rightarrow> state \<Rightarrow> article \<Rightarrow> (error + event_record option) \<times> state" where
  "process_event e s a =
     (let ttl = get_default a ''title'' (PStr []);
          dsc = get_default a ''description'' (PStr []);
          full_text = fmt ttl @ [newline, newline] @ fmt dsc;
          (classification, s1) = classify_crisis e s full_text
      in
        if classification \<noteq> ''CRISIS'' then (Inr None, s1)
        else
          let ((people, severity), s2) = estimate_impact e s1 full_text;
              (summ, s3) = generate_summary e s2 full_text;
              loc = or_else (get a ''location'') ''Unknown'';
              ((la, lo), s4) = geocode e s3 loc;
              ty = infer_event_type full_text;
              (links, s5) = suggest_donations e s4 ty;
              eid = uuid4 e (ticks s5);
              s6 = tick s5;
              ts = isoformat (utcnow e (ticks s6));
              s7 = tick s6;
              row = [CStr ts, CStr eid, CStr loc, CFloat la, CFloat lo, CStr ty, CStr summ,
                     CInt people, CInt severity, CJsonDumps links];
              s8 = write_to_sheet e s7 row;
              rcd = \<lparr>timestamp = ts, event_id = eid, location = loc, lat = la, lng = lo,
                     event_type = ty, title = ttl, description = dsc, summary = summ,
                     people_affected = people, severity_score = severity,
                     donation_links = links, source_url = get a ''url''\<rparr>;
              s9 = save_to_gcs e s8 eid rcd
          in
            case tweet_crisis e s9 rcd of
              (Inl exc, s10) \<Rightarrow> (Inr (Some rcd), s10)
            | (Inr u, s10) \<Rightarrow> (Inr (Some rcd), s10))"

definition main_step :: "env \<Rightarrow> nat \<times> state \<Rightarrow> article \<Rightarrow> nat \<times> state" where
  \<comment> \<open>one round of the loop of \<open>main\<close> over the collected items\<close>
  "main_step e ps a =
     (case ps of (processed_count, s) \<Rightarrow>
        (case process_event e s a of
           (Inr r, s') \<Rightarrow> (processed_count + 1, s')
         | (Inl exc, s') \<Rightarrow> (processed_count, s')))"

text \<open>
  \<open>main\<close> after the source adapters have delivered \<open>all_articles\<close>. It returns the status
  string; the model returns the counter it logs as well.
\<close>

definition main :: "env \<Rightarrow> state \<Rightarrow> article list \<Rightarrow> string \<times> nat \<times> state" where
  "main e s all_articles =
     (if all_articles = [] then (''OK - No articles to process'', 0, s)
      else
        let (processed_count, s') = foldl (main_step e) (0, s) all_articles
        in (''OK'', processed_count, s'))"

section \<open>Reference formulations\<close>

text \<open>
  The event-type heuristic as a table: an ordered list of keyword groups, each with its
  label; the first group of which a keyword occurs in the lower-cased text decides.
\<close>

definition keyword_table :: "(string list \<times> string) list" where
  "keyword_table =
     [([''war'', ''conflict'', ''battle''], ''War''),
      ([''famine'', ''hunger'', ''starvation''], ''Famine''),
      ([''flood'', ''storm'', ''hurricane'', ''typhoon''], ''Flood''),
      ([''earthquake'', ''quake''], ''Earthquake''),
      ([''drought''], ''Drought'')]"

definition mentions :: "string list \<Rightarrow> string \<Rightarrow> bool" where
  "mentions kws t = list_ex (\<lambda>k. contains k (lower t)) kws"

definition spec_event_type :: "string \<Rightarrow> string" where
  "spec_event_type t =
     (case find (\<lambda>entry. mentions (fst entry) t) keyword_table of
        None \<Rightarrow> ''Other''
      | Some entry \<Rightarrow> snd entry)"

text \<open>
  The reading of the impact reply, line by line: the key of a line is what stands before
  its first colon, lower-cased and trimmed, the value what stands after it; a line speaks
  of people or of severity when it has a colon and its key starts with that word; the
  number of a value is the number that its digit characters spell, and 0 when it has no
  digit character or when its digit characters spell no number that the interpreter
  converts (a superscript among them, or more digits than its limit). Each field is the
  number of the last line of the reply that speaks of it, and 0 when no line does.
\<close>

definition key_of :: "string \<Rightarrow> string" where
  "key_of line = strip (lower (takeWhile (\<lambda>c. c \<noteq> colon) line))"

definition value_of :: "string \<Rightarrow> string" where
  "value_of line = tl (dropWhile (\<lambda>c. c \<noteq> colon) line)"

definition people_line :: "string \<Rightarrow> bool" where
  "people_line line = (colon \<in> set line \<and> prefix ''people'' (key_of line))"

definition severity_line :: "string \<Rightarrow> bool" where
  "severity_line line = (colon \<in> set line \<and> prefix ''severity'' (key_of line))"

definition spells_number :: "nat \<Rightarrow> string \<Rightarrow> bool" where
  "spells_number maxd ds = (ds \<noteq> [] \<and> list_all isdecimal ds \<and> (maxd = 0 \<or> length ds \<le> maxd))"

definition digits_number :: "nat \<Rightarrow> string \<Rightarrow> int" where
  "digits_number maxd v =
     (if spells_number maxd (filter isdigit v) then int_of_digits (filter isdigit v) else 0)"

definition readings :: "nat \<Rightarrow> (string \<Rightarrow> bool) \<Rightarrow> string list \<Rightarrow> int list" where
  \<comment> \<open>the numbers of the lines that speak of a field, in the order of the lines\<close>
  "readings maxd P ls = map (\<lambda>line. digits_number maxd (value_of line)) (filter P ls)"

definition last_value :: "nat \<Rightarrow> (string \<Rightarrow> bool) \<Rightarrow> string list \<Rightarrow> int" where
  "last_value maxd P ls =
     (case filter P (rev ls) of
        [] \<Rightarrow> 0
      | line # earlier \<Rightarrow> digits_number maxd (value_of line))"

definition spec_impact :: "nat \<Rightarrow> string \<Rightarrow> int \<times> int" where
  "spec_impact maxd reply =
     (last_value maxd people_line (split newline reply),
      last_value maxd severity_line (split newline reply))"

text \<open>
  The donation list, as the specification words it: the reply is cut at every newline
  and every comma, each fragment is trimmed, empty fragments are dropped, and the first
  three that remain are kept.
\<close>

fun fragments :: "(char \<Rightarrow> bool) \<Rightarrow> string \<Rightarrow> string list" where
  "fragments is_sep [] = [[]]"
| "fragments is_sep (c # cs) =
     (if is_sep c then [] # fragments is_sep cs
      else (case fragments is_sep cs of [] \<Rightarrow> [[c]] | w # ws \<Rightarrow> (c # w) # ws))"

definition trimmed_nonempty :: "string list \<Rightarrow> string list" where
  "trimmed_nonempty fs = filter (\<lambda>f. f \<noteq> []) (map strip fs)"

definition spec_donations :: "string \<Rightarrow> string list" where
  "spec_donations reply =
     take 3 (trimmed_nonempty (fragments (\<lambda>c. c = newline \<or> c = comma) reply))"

text \<open>
  The geocoder fails when its call raises or its reply holds no result.
\<close>

definition geocoding_fails :: "error + geo_data \<Rightarrow> bool" where
  "geocoding_fails reply =
     (case reply of
        Inl exc \<Rightarrow> True
      | Inr NoResults \<Rightarrow> True
      | Inr (Geometry glat glng) \<Rightarrow> False)"

text \<open>
  The text that \<open>process_event\<close> builds from an item and passes to the enrichment steps.
\<close>

definition full_text_of :: "article \<Rightarrow> string" where
  "full_text_of a =
     fmt (get_default a ''title'' (PStr [])) @ [newline, newline]
       @ fmt (get_default a ''description'' (PStr []))"

text \<open>
  The flattened row of a record, in the fixed column order of the sheet, and the key
  under which a record is archived.
\<close>

definition row_of :: "event_record \<Rightarrow> cell list" where
  "row_of r =
     [CStr (timestamp r), CStr (event_id r), CStr (location r), CFloat (lat r), CFloat (lng r),
      CStr (event_type r), CStr (summary r), CInt (people_affected r),
      CInt (severity_score r), CJsonDumps (donation_links r)]"

definition object_key :: "datetime \<Rightarrow> string \<Rightarrow> string" where
  "object_key now eid =
     ''events/'' @ year now @ ''/'' @ month now @ ''/'' @ day now @ ''/'' @ eid @ ''.json''"

text \<open>
  The calls that one item which passes classification causes, stage by stage: the
  enrichment requests, the append to the sheet, the upload to the bucket, the post.
\<close>

definition enrich_calls :: "env \<Rightarrow> article \<Rightarrow> effect list" where
  "enrich_calls e a =
     [ChatCompletion Classify (full_text_of a),
      ChatCompletion Impact (''Description: '' @ full_text_of a),
      ChatCompletion Summary (full_text_of a)]
     @ (if opencage_api_key e then [OpenCage (or_else (get a ''location'') ''Unknown'')] else [])
     @ [ChatCompletion Donations (''Event type: '' @ infer_event_type (full_text_of a))]"

definition sheet_calls :: "env \<Rightarrow> event_record \<Rightarrow> effect list" where
  "sheet_calls e r =
     (if google_libraries e \<and> google_sheet_credentials e then [SheetAppend (row_of r)] else [])"

definition gcs_calls :: "env \<Rightarrow> nat \<Rightarrow> event_record \<Rightarrow> effect list" where
  "gcs_calls e n r =
     (if storage_library e \<and> gcs_bucket_name e then
        GcsUpload (object_key (utcnow e n) (event_id r)) r
          # (case gcs_upload e (object_key (utcnow e n) (event_id r)) r of
               Inl exc \<Rightarrow> []
             | Inr u \<Rightarrow> [GcsMakePublic (object_key (utcnow e n) (event_id r))])
      else [])"

definition tweet_calls :: "env \<Rightarrow> event_record \<Rightarrow> effect list" where
  "tweet_calls e r =
     (if twitter_credentials e \<and> tweepy_installed e then
        (case tweet_text r of Inl exc \<Rightarrow> [] | Inr text \<Rightarrow> [UpdateStatus (take 280 text)])
      else [])"

text \<open>
  The texts that a run has posted, in order.
\<close>

fun status_texts :: "effect list \<Rightarrow> string list" where
  "status_texts [] = []"
| "status_texts (UpdateStatus text # cs) = text # status_texts cs"
| "status_texts (c # cs) = status_texts cs"

section \<open>Sample environments and items\<close>

text \<open>
  An environment in which every credential and library is present, both storage
  sinks accept what they are given and the interpreter converts numbers of up to 4300
  digits; the completion service, the geocoder and the posting service are parameters.
\<close>

definition sample_env ::
  "(prompt \<Rightarrow> string \<Rightarrow> error + string) \<Rightarrow> (string \<Rightarrow> error + geo_data)
     \<Rightarrow> (string \<Rightarrow> error + unit) \<Rightarrow> env" where
  "sample_env chat geo post =
     \<lparr>openai_api_key = True, opencage_api_key = True, google_libraries = True,
      google_sheet_credentials = True, storage_library = True, gcs_bucket_name = True,
      twitter_credentials = True, tweepy_installed = True,
      chat_completion = chat, opencage = geo,
      sheets_append = (\<lambda>row. Inr ()), gcs_upload = (\<lambda>key data. Inr ()),
      gcs_make_public = (\<lambda>key. Inr ()), update_status = post,
      uuid4 = (\<lambda>n. ''event-'' @ str_int (int n)),
      utcnow = (\<lambda>n. Datetime ''2025-06-01T12:00:00+00:00'' ''2025'' ''06'' ''01''),
      int_max_str_digits = 4300\<rparr>"

definition initial :: state where
  "initial = \<lparr>calls = [], ticks = 0\<rparr>"

text \<open>
  An environment whose completion service gives the same reply to every request.
\<close>

definition reply_env :: "string \<Rightarrow> env" where
  "reply_env reply = sample_env (\<lambda>p t. Inr reply) (\<lambda>q. Inr NoResults) (\<lambda>text. Inr ())"

text \<open>
  Two items, a completion service that recognises the second as a crisis, and three
  variants of it: one whose summary is three hundred characters long, one whose donation
  reply is empty, and one that states a severity of 500.
\<close>

definition sunny :: article where
  "sunny = [''title'' \<mapsto> PStr ''Sunny weekend ahead'', ''description'' \<mapsto> PStr ''No news.'']"

definition jakarta :: article where
  "jakarta = [''title'' \<mapsto> PStr ''Flood devastates Jakarta'',
              ''description'' \<mapsto> PStr ''Thousands displaced after monsoon floods.'',
              ''location'' \<mapsto> PStr ''Jakarta'']"

definition sample_chat :: "prompt \<Rightarrow> string \<Rightarrow> error + string" where
  "sample_chat p t =
     (case p of
        Classify \<Rightarrow> if contains ''Flood'' t then Inr ''CRISIS'' else Inr ''No.''
      | Impact \<Rightarrow> Inr ''People Affected: 5,000\<newline>Severity Score: 60''
      | Summary \<Rightarrow> Inr ''Severe flooding in Jakarta has displaced thousands.''
      | Donations \<Rightarrow> Inr ''Red Cross, https://redcross.org'')"

definition long_chat :: "prompt \<Rightarrow> string \<Rightarrow> error + string" where
  "long_chat p t =
     (case p of
        Summary \<Rightarrow> Inr (replicate 300 (CHR ''x''))
      | Classify \<Rightarrow> sample_chat p t
      | Impact \<Rightarrow> sample_chat p t
      | Donations \<Rightarrow> sample_chat p t)"

definition mute_chat :: "prompt \<Rightarrow> string \<Rightarrow> error + string" where
  "mute_chat p t =
     (case p of
        Donations \<Rightarrow> Inr []
      | Classify \<Rightarrow> sample_chat p t
      | Impact \<Rightarrow> sample_chat p t
      | Summary \<Rightarrow> sample_chat p t)"

definition alarm_chat :: "prompt \<Rightarrow> string \<Rightarrow> error + string" where
  "alarm_chat p t =
     (case p of
        Impact \<Rightarrow> Inr ''People Affected: 12\<newline>Severity Score: 500''
      | Classify \<Rightarrow> sample_chat p t
      | Summary \<Rightarrow> sample_chat p t
      | Donations \<Rightarrow> sample_chat p t)"

text \<open>
  Six environments built from them: all collaborators answer; the geocoder raises; the
  posting service raises; the summary is long; the donation reply is empty; the severity
  stated is 500. Below them, the records that the second item yields with the short and
  with the long summary.
\<close>

definition quiet_env :: env where
  "quiet_env = sample_env sample_chat (\<lambda>q. Inr NoResults) (\<lambda>text. Inr ())"

definition no_geocoder_env :: env where
  "no_geocoder_env = sample_env sample_chat (\<lambda>q. Inl ApiError) (\<lambda>text. Inr ())"

definition failing_post_env :: env where
  "failing_post_env = sample_env sample_chat (\<lambda>q. Inr NoResults) (\<lambda>text. Inl ApiError)"

definition long_summary_env :: env where
  "long_summary_env = sample_env long_chat (\<lambda>q. Inr NoResults) (\<lambda>text. Inr ())"

definition mute_env :: env where
  "mute_env = sample_env mute_chat (\<lambda>q. Inr NoResults) (\<lambda>text. Inr ())"

definition alarm_env :: env where
  "alarm_env = sample_env alarm_chat (\<lambda>q. Inr NoResults) (\<lambda>text. Inr ())"

definition jakarta_record :: event_record where
  "jakarta_record =
     \<lparr>timestamp = ''2025-06-01T12:00:00+00:00'', event_id = ''event-0'',
      location = ''Jakarta'', lat = 0, lng = 0, event_type = ''Flood'',
      title = PStr ''Flood devastates Jakarta'',
      description = PStr ''Thousands displaced after monsoon floods.'',
      summary = ''Severe flooding in Jakarta has displaced thousands.'',
      people_affected = 5000, severity_score = 60,
      donation_links = [''Red Cross'', ''https://redcross.org''], source_url = PNone\<rparr>"

definition long_record :: event_record where
  "long_record = jakarta_record\<lparr>summary := replicate 300 (CHR ''x'')\<rparr>"

section \<open>Facts about texts\<close>

lemma contains_iff: "contains k t \<longleftrightarrow> (\<exists>p q. t = p @ k @ q)"
proof (induction t)
  case Nil
  then show ?case by auto
next
  case (Cons c cs)
  show ?case
  proof
    assume "contains k (c # cs)"
    then consider "prefix k (c # cs)" | "contains k cs" by auto
    then show "\<exists>p q. c # cs = p @ k @ q"
    proof cases
      case 1
      then obtain q where "c # cs = k @ q" by (auto simp: prefix_def)
      then have "c # cs = [] @ k @ q" by simp
      then show ?thesis by blast
    next
      case 2
      with Cons.IH obtain p q where "cs = p @ k @ q" by blast
      then have "c # cs = (c # p) @ k @ q" by simp
      then show ?thesis by blast
    qed
  next
    assume "\<exists>p q. c # cs = p @ k @ q"
    then obtain p q where pq: "c # cs = p @ k @ q" by blast
    show "contains k (c # cs)"
    proof (cases p)
      case Nil
      with pq have "prefix k (c # cs)" by (simp add: prefix_def)
      then show ?thesis by simp
    next
      case (Cons x xs)
      with pq have "cs = xs @ k @ q" by simp
      with Cons.IH have "contains k cs" by blast
      then show ?thesis by simp
    qed
  qed
qed

lemma contains_middle: "contains k (p @ k @ q)"
  unfolding contains_iff by (intro exI) (rule refl)

lemma contains_trans:
  assumes "contains k t" and "contains t u"
  shows "contains k u"
proof -
  from assms(1) obtain p q where t: "t = p @ k @ q"
    unfolding contains_iff by (elim exE)
  from assms(2) obtain p' q' where u: "u = p' @ t @ q'"
    unfolding contains_iff by (elim exE)
  have "u = (p' @ p) @ k @ (q @ q')"
    by (simp add: t u)
  then show ?thesis
    using contains_middle [of k "p' @ p" "q @ q'"] by simp
qed

lemma split_not_Nil: "split sep t \<noteq> []"
  by (induction t) (auto split: list.splits)

lemma split_Cons:
  "split sep (c # cs) =
     (if c = sep then [] # split sep cs
      else (c # hd (split sep cs)) # tl (split sep cs))"
  using split_not_Nil [of sep cs] by (cases "split sep cs") auto

lemma hd_split_prefix: "\<exists>q. t = hd (split sep t) @ q"
proof (induction t)
  case Nil
  then show ?case by simp
next
  case (Cons c cs)
  then obtain q where q: "cs = hd (split sep cs) @ q" by blast
  obtain w ws where ws: "split sep cs = w # ws"
    using split_not_Nil [of sep cs] by (cases "split sep cs") auto
  show ?case
  proof (cases "c = sep")
    case True
    then show ?thesis by simp
  next
    case False
    with q ws have "c # cs = hd (split sep (c # cs)) @ q" by simp
    then show ?thesis by blast
  qed
qed

lemma fragments_not_Nil: "fragments P t \<noteq> []"
  by (induction t) (auto split: list.splits)

lemma fragments_Cons:
  "fragments P (c # cs) =
     (if P c then [] # fragments P cs
      else (c # hd (fragments P cs)) # tl (fragments P cs))"
  using fragments_not_Nil [of P cs] by (cases "fragments P cs") auto

lemma split_fragments: "split sep t = fragments (\<lambda>c. c = sep) t"
  by (induction t) simp_all

lemma split_replace_fragments:
  assumes "\<And>c. P c = (c = old \<or> c = sep)"
  shows "split sep (replace old sep t) = fragments P t"
proof (induction t)
  case Nil
  then show ?case by (simp add: replace_def)
next
  case (Cons c cs)
  have "replace old sep (c # cs) = (if c = old then sep else c) # replace old sep cs"
    by (simp add: replace_def)
  then show ?case
    using Cons.IH assms [of c]
    by (simp del: split.simps(2) fragments.simps(2) add: split_Cons fragments_Cons)
qed

lemma fragments_append:
  "fragments P (u @ w) =
     butlast (fragments P u) @ [last (fragments P u) @ hd (fragments P w)] @ tl (fragments P w)"
proof (induction u)
  case Nil
  then show ?case using fragments_not_Nil [of P w] by simp
next
  case (Cons c u)
  let ?F = "fragments P u"
  have ne: "?F \<noteq> []" by (rule fragments_not_Nil)
  show ?case
  proof (cases "P c")
    case True
    then show ?thesis using Cons.IH ne by (simp del: fragments.simps(2) add: fragments_Cons)
  next
    case False
    show ?thesis
    proof (cases "tl ?F = []")
      case True
      with ne have single: "?F = [hd ?F]" by (cases ?F) auto
      have "butlast [hd ?F] = []" and "last [hd ?F] = hd ?F"
        by simp_all
      with single have "butlast ?F = []" and "last ?F = hd ?F"
        by simp_all
      then show ?thesis
        using False Cons.IH True by (simp del: fragments.simps(2) add: fragments_Cons)
    next
      case longer: False
      with ne obtain f f2 rest where F: "?F = f # f2 # rest"
        by (cases ?F; cases "tl ?F") auto
      then show ?thesis
        using False Cons.IH by (simp del: fragments.simps(2) add: fragments_Cons)
    qed
  qed
qed

lemma strip_eq_Nil: "strip t = [] \<longleftrightarrow> list_all isspace t"
proof
  assume "strip t = []"
  then have "\<forall>c\<in>set (dropWhile isspace t). isspace c"
    by (simp add: strip_def)
  then have "dropWhile isspace t = []"
    using hd_dropWhile [of isspace t] by (cases "dropWhile isspace t") auto
  then show "list_all isspace t"
    by (simp add: list_all_iff)
next
  assume "list_all isspace t"
  then have "dropWhile isspace t = []"
    by (simp add: list_all_iff)
  then show "strip t = []"
    unfolding strip_def by (simp only: rev.simps dropWhile.simps)
qed

lemma strip_append_left:
  assumes "list_all isspace w"
  shows "strip (w @ x) = strip x"
proof -
  have "dropWhile isspace (w @ x) = dropWhile isspace x"
    using assms by (intro dropWhile_append2) (simp add: list_all_iff)
  then show ?thesis
    by (simp add: strip_def)
qed

lemma strip_append_right:
  assumes "list_all isspace w"
  shows "strip (x @ w) = strip x"
proof (cases "list_all isspace x")
  case True
  with assms have "list_all isspace (x @ w)" by simp
  with True show ?thesis by (simp add: strip_eq_Nil [THEN iffD2])
next
  case False
  then obtain c where c: "c \<in> set x" "\<not> isspace c"
    by (auto simp: list_all_iff)
  then have d: "dropWhile isspace (x @ w) = dropWhile isspace x @ w"
    by (rule dropWhile_append1)
  have "dropWhile isspace (rev w @ rev (dropWhile isspace x))
          = dropWhile isspace (rev (dropWhile isspace x))"
    using assms by (intro dropWhile_append2) (simp add: list_all_iff)
  with d show ?thesis
    by (simp add: strip_def)
qed

lemma strip_decompose:
  "\<exists>w1 w2. list_all isspace w1 \<and> list_all isspace w2 \<and> t = w1 @ strip t @ w2"
proof -
  let ?d = "dropWhile isspace t"
  let ?w1 = "takeWhile isspace t"
  let ?w2 = "rev (takeWhile isspace (rev ?d))"
  have "strip t @ ?w2 = rev (takeWhile isspace (rev ?d) @ dropWhile isspace (rev ?d))"
    by (simp only: strip_def rev_append)
  also have "\<dots> = rev (rev ?d)"
    by (simp only: takeWhile_dropWhile_id)
  finally have "?d = strip t @ ?w2"
    by simp
  then have "t = ?w1 @ strip t @ ?w2"
    using takeWhile_dropWhile_id [of isspace t] by simp
  moreover have "list_all isspace ?w1"
    by (simp add: list_all_iff) (meson set_takeWhileD)
  moreover have "list_all isspace ?w2"
    by (simp add: list_all_iff) (meson set_takeWhileD)
  ultimately show ?thesis
    by blast
qed

lemma fragments_all:
  "list_all (list_all Q) (fragments P t) \<longleftrightarrow> list_all (\<lambda>c. P c \<or> Q c) t"
proof (induction t)
  case Nil
  then show ?case by simp
next
  case (Cons c cs)
  have F: "fragments P cs = hd (fragments P cs) # tl (fragments P cs)"
    using fragments_not_Nil [of P cs] by simp
  have "list_all (list_all Q) (fragments P cs)
          \<longleftrightarrow> list_all Q (hd (fragments P cs)) \<and> list_all (list_all Q) (tl (fragments P cs))"
    by (subst F) simp
  with Cons.IH show ?case
    by (auto simp del: fragments.simps(2) simp add: fragments_Cons)
qed

lemma fragments_blank:
  assumes "list_all isspace w"
  shows "list_all (list_all isspace) (fragments P w)"
proof -
  have "list_all (\<lambda>c. P c \<or> isspace c) w"
    using assms by (simp add: list_all_iff)
  then show ?thesis
    by (simp only: fragments_all)
qed

lemma list_all_butlast: "list_all Q xs \<Longrightarrow> list_all Q (butlast xs)"
  by (induction xs) auto

lemma list_all_tl: "list_all Q xs \<Longrightarrow> list_all Q (tl xs)"
  by (cases xs) auto

lemma list_all_hd: "xs \<noteq> [] \<Longrightarrow> list_all Q xs \<Longrightarrow> Q (hd xs)"
  by (cases xs) auto

lemma list_all_last: "xs \<noteq> [] \<Longrightarrow> list_all Q xs \<Longrightarrow> Q (last xs)"
  by (induction xs) auto

lemma blank_fragments_vanish:
  assumes add: "\<And>a b. m (a @ b) = m a @ m b"
      and blank: "\<And>l. list_all isspace l \<Longrightarrow> m [l] = []"
      and all: "list_all (list_all isspace) ls"
  shows "m ls = []"
  using all
proof (induction ls)
  case Nil
  have "m ([] @ []) = m [] @ m []" by (rule add)
  then show ?case by simp
next
  case (Cons l ls)
  have "m (l # ls) = m [l] @ m ls"
    using add [of "[l]" ls] by simp
  with Cons blank [of l] show ?case by simp
qed

lemma fragments_strip_invariant:
  assumes add: "\<And>a b. m (a @ b) = m a @ m b"
      and blank: "\<And>l. list_all isspace l \<Longrightarrow> m [l] = []"
      and left: "\<And>b l. list_all isspace b \<Longrightarrow> m [b @ l] = m [l]"
      and right: "\<And>b l. list_all isspace b \<Longrightarrow> m [l @ b] = m [l]"
  shows "m (fragments P (strip t)) = m (fragments P t)"
proof -
  have vanish: "m ls = []" if "list_all (list_all isspace) ls" for ls
    using add blank that by (rule blank_fragments_vanish)
  have split3: "m (xs @ [x] @ ys) = m xs @ m [x] @ m ys" for xs x ys
    by (simp only: add)
  have on_right: "m (fragments P (u @ w)) = m (fragments P u)" if w: "list_all isspace w" for u w
  proof -
    let ?F = "fragments P u" and ?W = "fragments P w"
    have bl: "list_all (list_all isspace) ?W"
      using w by (rule fragments_blank)
    have "list_all isspace (hd ?W)"
      using fragments_not_Nil bl by (rule list_all_hd)
    then have joined: "m [last ?F @ hd ?W] = m [last ?F]"
      by (rule right)
    have rest: "m (tl ?W) = []"
      using bl by (intro vanish list_all_tl)
    have "m (fragments P (u @ w)) = m (butlast ?F) @ m [last ?F @ hd ?W] @ m (tl ?W)"
      by (simp only: fragments_append [of P u w] split3)
    also have "\<dots> = m (butlast ?F) @ m [last ?F]"
      using joined rest by simp
    also have "\<dots> = m (butlast ?F @ [last ?F])"
      by (simp only: add)
    also have "\<dots> = m ?F"
      using fragments_not_Nil [of P u] by simp
    finally show ?thesis .
  qed
  have on_left: "m (fragments P (w @ u)) = m (fragments P u)" if w: "list_all isspace w" for u w
  proof -
    let ?F = "fragments P u" and ?W = "fragments P w"
    have bl: "list_all (list_all isspace) ?W"
      using w by (rule fragments_blank)
    have "list_all isspace (last ?W)"
      using fragments_not_Nil bl by (rule list_all_last)
    then have joined: "m [last ?W @ hd ?F] = m [hd ?F]"
      by (rule left)
    have front: "m (butlast ?W) = []"
      using bl by (intro vanish list_all_butlast)
    have "m (fragments P (w @ u)) = m (butlast ?W) @ m [last ?W @ hd ?F] @ m (tl ?F)"
      by (simp only: fragments_append [of P w u] split3)
    also have "\<dots> = m [hd ?F] @ m (tl ?F)"
      using joined front by simp
    also have "\<dots> = m ([hd ?F] @ tl ?F)"
      by (simp only: add)
    also have "\<dots> = m ?F"
      using fragments_not_Nil [of P u] by simp
    finally show ?thesis .
  qed
  obtain w1 w2 where w: "list_all isspace w1" "list_all isspace w2" "t = w1 @ strip t @ w2"
    using strip_decompose by blast
  have "m (fragments P (w1 @ strip t @ w2)) = m (fragments P (strip t @ w2))"
    using w(1) by (rule on_left)
  also have "\<dots> = m (fragments P (strip t))"
    using w(2) by (rule on_right)
  finally show ?thesis
    using w(3) by simp
qed

section \<open>The event-type heuristic\<close>

text \<open>
  C6. \<open>infer_event_type\<close> is a total function of the text that agrees with the ordered
  keyword table (lower-case the text, take the label of the first group with a keyword
  in it, \<open>Other\<close> if there is none); its result is always one of the six labels; and a
  text that mentions both a keyword of the War group and one of the Flood group is
  classified as War.
\<close>

theorem infer_event_type_ordered:
  "infer_event_type t = spec_event_type t
   \<and> infer_event_type t \<in> set [''War'', ''Famine'', ''Flood'', ''Earthquake'', ''Drought'', ''Other'']
   \<and> (mentions [''war'', ''conflict'', ''battle''] t
        \<and> mentions [''flood'', ''storm'', ''hurricane'', ''typhoon''] t
      \<longrightarrow> infer_event_type t = ''War'')"
  by (simp add: infer_event_type_def spec_event_type_def keyword_table_def mentions_def Let_def)

theorem infer_event_type_ordered_witness:
  "mentions [''war'', ''conflict'', ''battle''] ''Civil WAR after the Flood''
   \<and> mentions [''flood'', ''storm'', ''hurricane'', ''typhoon''] ''Civil WAR after the Flood''
   \<and> infer_event_type ''Civil WAR after the Flood'' = ''War''"
proof -
  have "mentions [''war'', ''conflict'', ''battle''] ''Civil WAR after the Flood''
        \<and> mentions [''flood'', ''storm'', ''hurricane'', ''typhoon''] ''Civil WAR after the Flood''"
    by code_simp
  with infer_event_type_ordered [of "''Civil WAR after the Flood''"] show ?thesis
    by blast
qed

section \<open>Facts about the stages\<close>

lemma classify_crisis_state:
  "snd (classify_crisis e s t) =
     (if openai_api_key e then emit (ChatCompletion Classify t) s else s)"
  by (simp add: classify_crisis_def Let_def split: sum.splits)

lemma classify_crisis_needs_key:
  "fst (classify_crisis e s t) = ''CRISIS'' \<Longrightarrow> openai_api_key e"
  by (simp add: classify_crisis_def split: if_splits)

lemma classify_crisis_two_values:
  "fst (classify_crisis e s t) = ''CRISIS'' \<or> fst (classify_crisis e s t) = ''NOT CRISIS''"
  by (simp add: classify_crisis_def Let_def split: sum.splits)

lemma estimate_impact_state:
  "snd (estimate_impact e s t) =
     (if openai_api_key e then emit (ChatCompletion Impact (''Description: '' @ t)) s else s)"
  by (simp add: estimate_impact_def Let_def split: sum.splits)

lemma generate_summary_state:
  "snd (generate_summary e s t) =
     (if openai_api_key e then emit (ChatCompletion Summary t) s else s)"
  by (simp add: generate_summary_def Let_def split: sum.splits)

lemma suggest_donations_state:
  "snd (suggest_donations e s ty) =
     (if openai_api_key e then emit (ChatCompletion Donations (''Event type: '' @ ty)) s else s)"
  by (simp add: suggest_donations_def Let_def split: sum.splits)

lemma geocode_state:
  "snd (geocode e s loc) =
     (if opencage_api_key e \<and> loc \<noteq> [] then emit (OpenCage loc) s else s)"
  by (simp add: geocode_def Let_def split: sum.splits geo_data.splits)

lemma write_to_sheet_state:
  "write_to_sheet e s row =
     (if google_libraries e \<and> google_sheet_credentials e then emit (SheetAppend row) s else s)"
  by (simp add: write_to_sheet_def Let_def split: sum.splits)

lemma save_to_gcs_calls:
  "calls (save_to_gcs e s (event_id r) r) = calls s @ gcs_calls e (ticks s) r"
  by (simp add: save_to_gcs_def gcs_calls_def object_key_def Let_def emit_def tick_def
           split: sum.splits)

lemma save_to_gcs_ticks:
  "ticks (save_to_gcs e s eid r) =
     (if storage_library e \<and> gcs_bucket_name e then Suc (ticks s) else ticks s)"
  by (simp add: save_to_gcs_def Let_def emit_def tick_def split: sum.splits)

lemma tweet_crisis_result: "fst (tweet_crisis e s r) = Inr ()"
  by (simp add: tweet_crisis_def split: prod.splits sum.splits)

lemma tweet_crisis_calls:
  "calls (snd (tweet_crisis e s r)) = calls s @ tweet_calls e r"
  by (simp add: tweet_crisis_def tweet_attempt_def tweet_calls_def emit_def
           split: prod.splits sum.splits)

lemma tweet_crisis_ticks: "ticks (snd (tweet_crisis e s r)) = ticks s"
  by (simp add: tweet_crisis_def tweet_attempt_def emit_def split: prod.splits sum.splits)

lemma or_else_nonempty: "dflt \<noteq> [] \<Longrightarrow> or_else v dflt \<noteq> []"
  by (simp add: or_else_def split: pyval.splits)

lemma emit_calls [simp]: "calls (emit x s) = calls s @ [x]"
  by (simp add: emit_def)

lemma emit_ticks [simp]: "ticks (emit x s) = ticks s"
  by (simp add: emit_def)

lemma tick_calls [simp]: "calls (tick s) = calls s"
  by (simp add: tick_def)

lemma tick_ticks [simp]: "ticks (tick s) = Suc (ticks s)"
  by (simp add: tick_def)

lemma estimate_impact_value:
  "fst (estimate_impact e s t) = fst (estimate_impact e s' t)"
  by (simp add: estimate_impact_def Let_def split: sum.splits)

lemma generate_summary_value:
  "fst (generate_summary e s t) = fst (generate_summary e s' t)"
  by (simp add: generate_summary_def Let_def split: sum.splits)

lemma suggest_donations_value:
  "fst (suggest_donations e s ty) = fst (suggest_donations e s' ty)"
  by (simp add: suggest_donations_def Let_def split: sum.splits)

lemma geocode_value:
  "fst (geocode e s loc) = fst (geocode e s' loc)"
  by (simp add: geocode_def Let_def split: sum.splits geo_data.splits)

lemma classify_crisis_reply:
  assumes "openai_api_key e" and "chat_completion e Classify t = Inr reply"
  shows "fst (classify_crisis e s t) =
           (if contains ''CRISIS'' (upper (strip reply)) then ''CRISIS'' else ''NOT CRISIS'')"
  using assms by (simp add: classify_crisis_def Let_def)

lemma estimate_impact_reply:
  assumes "openai_api_key e" and "chat_completion e Impact (''Description: '' @ t) = Inr reply"
  shows "fst (estimate_impact e s t)
           = foldl (impact_line (int_max_str_digits e)) (0, 0) (split newline (strip reply))"
  using assms by (simp add: estimate_impact_def Let_def)

lemma generate_summary_reply:
  assumes "openai_api_key e" and "chat_completion e Summary t = Inr reply"
  shows "fst (generate_summary e s t) = strip reply"
  using assms by (simp add: generate_summary_def Let_def)

lemma suggest_donations_reply:
  assumes "openai_api_key e" and "chat_completion e Donations (''Event type: '' @ ty) = Inr reply"
  shows "fst (suggest_donations e s ty) =
           take 3 (filter (\<lambda>item. item \<noteq> [])
                     (map strip (split comma (replace newline comma (strip reply)))))"
  using assms by (simp add: suggest_donations_def Let_def)

lemma geocode_fails:
  "geocoding_fails (opencage e loc) \<Longrightarrow> fst (geocode e s loc) = (0, 0)"
  by (simp add: geocode_def geocoding_fails_def Let_def split: sum.splits geo_data.splits)

lemma process_event_crisis:
  assumes crisis: "fst (classify_crisis e s (full_text_of a)) = ''CRISIS''"
  shows "\<exists>r.
           fst (process_event e s a) = Inr (Some r)
         \<and> calls (snd (process_event e s a)) =
             calls s @ enrich_calls e a @ sheet_calls e r @ gcs_calls e (ticks s + 2) r
               @ tweet_calls e r
         \<and> (people_affected r, severity_score r) = fst (estimate_impact e s (full_text_of a))
         \<and> summary r = fst (generate_summary e s (full_text_of a))
         \<and> location r = or_else (get a ''location'') ''Unknown''
         \<and> (lat r, lng r) = fst (geocode e s (location r))
         \<and> event_type r = infer_event_type (full_text_of a)
         \<and> donation_links r = fst (suggest_donations e s (event_type r))
         \<and> event_id r = uuid4 e (ticks s)
         \<and> timestamp r = isoformat (utcnow e (ticks s + 1))
         \<and> title r = get_default a ''title'' (PStr [])
         \<and> description r = get_default a ''description'' (PStr [])
         \<and> source_url r = get a ''url''"
proof -
  define ft where "ft = full_text_of a"
  define loc where "loc = or_else (get a ''location'') ''Unknown''"
  define s1 where "s1 = snd (classify_crisis e s ft)"
  define s2 where "s2 = snd (estimate_impact e s1 ft)"
  define s3 where "s3 = snd (generate_summary e s2 ft)"
  define s4 where "s4 = snd (geocode e s3 loc)"
  define s5 where "s5 = snd (suggest_donations e s4 (infer_event_type ft))"
  define r where "r =
    \<lparr>timestamp = isoformat (utcnow e (Suc (ticks s5))), event_id = uuid4 e (ticks s5),
     location = loc, lat = fst (fst (geocode e s3 loc)), lng = snd (fst (geocode e s3 loc)),
     event_type = infer_event_type ft, title = get_default a ''title'' (PStr []),
     description = get_default a ''description'' (PStr []),
     summary = fst (generate_summary e s2 ft),
     people_affected = fst (fst (estimate_impact e s1 ft)),
     severity_score = snd (fst (estimate_impact e s1 ft)),
     donation_links = fst (suggest_donations e s4 (infer_event_type ft)),
     source_url = get a ''url''\<rparr>"
  define s8 where "s8 = write_to_sheet e (tick (tick s5)) (row_of r)"
  define s9 where "s9 = save_to_gcs e s8 (event_id r) r"
  have key: "openai_api_key e"
    using crisis by (rule classify_crisis_needs_key)
  have loc_ne: "loc \<noteq> []"
    unfolding loc_def by (rule or_else_nonempty) simp
  have pe: "process_event e s a = (Inr (Some r), snd (tweet_crisis e s9 r))"
    using crisis
    unfolding s9_def s8_def
    by (simp add: process_event_def Let_def case_prod_beta row_of_def r_def s5_def s4_def
          s3_def s2_def s1_def loc_def ft_def full_text_of_def split: sum.splits)
  have t5: "ticks s5 = ticks s"
    using key
    by (simp add: s5_def s4_def s3_def s2_def s1_def suggest_donations_state geocode_state
          generate_summary_state estimate_impact_state classify_crisis_state)
  have c5: "calls s5 = calls s @ enrich_calls e a"
    using key loc_ne
    by (simp add: s5_def s4_def s3_def s2_def s1_def suggest_donations_state geocode_state
          generate_summary_state estimate_impact_state classify_crisis_state enrich_calls_def
          ft_def loc_def)
  have c8: "calls s8 = calls s5 @ sheet_calls e r"
    by (simp add: s8_def write_to_sheet_state sheet_calls_def)
  have t8: "ticks s8 = ticks s + 2"
    using t5 by (simp add: s8_def write_to_sheet_state)
  have c9: "calls s9 = calls s8 @ gcs_calls e (ticks s + 2) r"
    unfolding s9_def using save_to_gcs_calls [of e s8 r] t8 by simp
  have cs: "calls (snd (process_event e s a)) =
              calls s @ enrich_calls e a @ sheet_calls e r @ gcs_calls e (ticks s + 2) r
                @ tweet_calls e r"
    using pe c5 c8 c9 by (simp add: tweet_crisis_calls)
  have fields:
    "(people_affected r, severity_score r) = fst (estimate_impact e s (full_text_of a))"
    "summary r = fst (generate_summary e s (full_text_of a))"
    "location r = or_else (get a ''location'') ''Unknown''"
    "(lat r, lng r) = fst (geocode e s (location r))"
    "event_type r = infer_event_type (full_text_of a)"
    "donation_links r = fst (suggest_donations e s (event_type r))"
    "event_id r = uuid4 e (ticks s)"
    "timestamp r = isoformat (utcnow e (ticks s + 1))"
    "title r = get_default a ''title'' (PStr [])"
    "description r = get_default a ''description'' (PStr [])"
    "source_url r = get a ''url''"
    using t5 estimate_impact_value [of e s1 ft s] generate_summary_value [of e s2 ft s]
      geocode_value [of e s3 loc s] suggest_donations_value [of e s4 "infer_event_type ft" s]
    by (simp_all add: r_def ft_def loc_def)
  have "fst (process_event e s a) = Inr (Some r)"
    using pe by simp
  with cs fields show ?thesis
    by blast
qed

lemma process_event_returns: "\<exists>r s'. process_event e s a = (Inr r, s')"
  by (simp add: process_event_def Let_def case_prod_beta split: sum.splits)

lemma process_event_skipped:
  assumes "fst (classify_crisis e s (full_text_of a)) \<noteq> ''CRISIS''"
  shows "process_event e s a = (Inr None, snd (classify_crisis e s (full_text_of a)))"
  using assms
  by (simp add: process_event_def full_text_of_def Let_def case_prod_beta)

lemma process_event_some_crisis:
  assumes "fst (process_event e s a) = Inr (Some r)"
  shows "fst (classify_crisis e s (full_text_of a)) = ''CRISIS''"
proof (rule ccontr)
  assume "fst (classify_crisis e s (full_text_of a)) \<noteq> ''CRISIS''"
  then have "fst (process_event e s a) = Inr None"
    by (simp add: process_event_skipped)
  with assms show False by simp
qed

lemma process_event_none_iff:
  "fst (process_event e s a) = Inr None
     \<longleftrightarrow> fst (classify_crisis e s (full_text_of a)) = ''NOT CRISIS''"
proof
  assume none: "fst (process_event e s a) = Inr None"
  show "fst (classify_crisis e s (full_text_of a)) = ''NOT CRISIS''"
  proof (rule ccontr)
    assume "fst (classify_crisis e s (full_text_of a)) \<noteq> ''NOT CRISIS''"
    then have "fst (classify_crisis e s (full_text_of a)) = ''CRISIS''"
      using classify_crisis_two_values [of e s "full_text_of a"] by simp
    from process_event_crisis [OF this] obtain r where
      "fst (process_event e s a) = Inr (Some r)" by blast
    with none show False by simp
  qed
next
  assume "fst (classify_crisis e s (full_text_of a)) = ''NOT CRISIS''"
  then have "fst (classify_crisis e s (full_text_of a)) \<noteq> ''CRISIS''"
    by simp
  then show "fst (process_event e s a) = Inr None"
    by (simp add: process_event_skipped)
qed

lemma main_loop_count:
  "fst (foldl (main_step e) (n, s) articles) = n + length articles"
proof (induction articles arbitrary: n s)
  case Nil
  then show ?case by simp
next
  case (Cons a articles)
  obtain r s' where "process_event e s a = (Inr r, s')"
    using process_event_returns by blast
  then have "main_step e (n, s) a = (n + 1, s')"
    by (simp add: main_step_def)
  with Cons.IH [of "n + 1" s'] show ?case by simp
qed

section \<open>A sample run\<close>

lemma sample_env_sel [simp]:
  "openai_api_key (sample_env c g p)" "opencage_api_key (sample_env c g p)"
  "google_libraries (sample_env c g p)" "google_sheet_credentials (sample_env c g p)"
  "storage_library (sample_env c g p)" "gcs_bucket_name (sample_env c g p)"
  "twitter_credentials (sample_env c g p)" "tweepy_installed (sample_env c g p)"
  "chat_completion (sample_env c g p) = c" "opencage (sample_env c g p) = g"
  "update_status (sample_env c g p) = p" "int_max_str_digits (sample_env c g p) = 4300"
  by (simp_all add: sample_env_def)

lemma initial_sel [simp]: "calls initial = []" "ticks initial = 0"
  by (simp_all add: initial_def)

lemma reply_env_sel [simp]:
  "openai_api_key (reply_env reply)" "chat_completion (reply_env reply) p t = Inr reply"
  "int_max_str_digits (reply_env reply) = 4300"
  by (simp_all add: reply_env_def)

lemma jakarta_text:
  "full_text_of jakarta
     = ''Flood devastates Jakarta\<newline>\<newline>Thousands displaced after monsoon floods.''"
  by code_simp

lemma jakarta_classified:
  assumes "chat Classify (full_text_of jakarta) = Inr ''CRISIS''"
  shows "fst (classify_crisis (sample_env chat geo post) s (full_text_of jakarta)) = ''CRISIS''"
proof -
  have "contains ''CRISIS'' (upper (strip ''CRISIS''))"
    by code_simp
  then show ?thesis
    using assms classify_crisis_reply [of "sample_env chat geo post" "full_text_of jakarta" "''CRISIS''" s]
    by simp
qed

lemma jakarta_run:
  assumes cl: "chat Classify (full_text_of jakarta) = Inr ''CRISIS''"
      and im: "chat Impact (''Description: '' @ full_text_of jakarta)
                 = Inr ''People Affected: 5,000\<newline>Severity Score: 60''"
      and su: "chat Summary (full_text_of jakarta) = Inr summ" "strip summ = summ"
      and dn: "chat Donations ''Event type: Flood'' = Inr ''Red Cross, https://redcross.org''"
      and geo: "geocoding_fails (geo ''Jakarta'')"
  shows "fst (process_event (sample_env chat geo post) initial jakarta)
           = Inr (Some (jakarta_record\<lparr>summary := summ\<rparr>))"
    and "calls (snd (process_event (sample_env chat geo post) initial jakarta))
           = enrich_calls (sample_env chat geo post) jakarta
             @ sheet_calls (sample_env chat geo post) (jakarta_record\<lparr>summary := summ\<rparr>)
             @ gcs_calls (sample_env chat geo post) 2 (jakarta_record\<lparr>summary := summ\<rparr>)
             @ tweet_calls (sample_env chat geo post) (jakarta_record\<lparr>summary := summ\<rparr>)"
proof -
  let ?E = "sample_env chat geo post"
  have crisis: "fst (classify_crisis ?E initial (full_text_of jakarta)) = ''CRISIS''"
    using cl by (rule jakarta_classified)
  from process_event_crisis [OF crisis] obtain r where
    res: "fst (process_event ?E initial jakarta) = Inr (Some r)" and
    tr: "calls (snd (process_event ?E initial jakarta)) =
           calls initial @ enrich_calls ?E jakarta @ sheet_calls ?E r
             @ gcs_calls ?E (ticks initial + 2) r @ tweet_calls ?E r" and
    imp: "(people_affected r, severity_score r) = fst (estimate_impact ?E initial (full_text_of jakarta))" and
    summ: "summary r = fst (generate_summary ?E initial (full_text_of jakarta))" and
    loc: "location r = or_else (get jakarta ''location'') ''Unknown''" and
    ll: "(lat r, lng r) = fst (geocode ?E initial (location r))" and
    ty: "event_type r = infer_event_type (full_text_of jakarta)" and
    don: "donation_links r = fst (suggest_donations ?E initial (event_type r))" and
    eid: "event_id r = uuid4 ?E (ticks initial)" and
    ts: "timestamp r = isoformat (utcnow ?E (ticks initial + 1))" and
    ttl: "title r = get_default jakarta ''title'' (PStr [])" and
    dsc: "description r = get_default jakarta ''description'' (PStr [])" and
    url: "source_url r = get jakarta ''url''"
    by blast
  have f1: "foldl (impact_line 4300) (0, 0)
              (split newline (strip ''People Affected: 5,000\<newline>Severity Score: 60'')) = (5000, 60)"
    by code_simp
  have v1: "people_affected r = 5000 \<and> severity_score r = 60"
    using imp im f1 estimate_impact_reply [of ?E "full_text_of jakarta" _ initial] by simp
  have v2: "summary r = summ"
    using summ su generate_summary_reply [of ?E "full_text_of jakarta" summ initial] by simp
  have v3: "location r = ''Jakarta''"
    unfolding loc by code_simp
  have v4: "lat r = 0 \<and> lng r = 0"
    using ll geo v3 geocode_fails [of ?E "''Jakarta''" initial] by simp
  have v5: "event_type r = ''Flood''"
    unfolding ty by code_simp
  have f6: "take 3 (filter (\<lambda>item. item \<noteq> [])
              (map strip (split comma (replace newline comma
                 (strip ''Red Cross, https://redcross.org'')))))
            = [''Red Cross'', ''https://redcross.org'']"
    by code_simp
  have v6: "donation_links r = [''Red Cross'', ''https://redcross.org'']"
    using don dn v5 f6 suggest_donations_reply [of ?E "''Flood''" _ initial] by simp
  have f7: "''event-'' @ str_int (int 0) = ''event-0''"
    by code_simp
  have v7: "event_id r = ''event-0''"
    using eid f7 by (simp add: sample_env_def)
  have v8: "timestamp r = ''2025-06-01T12:00:00+00:00''"
    using ts by (simp add: sample_env_def)
  have v9: "title r = PStr ''Flood devastates Jakarta''"
    unfolding ttl by code_simp
  have v10: "description r = PStr ''Thousands displaced after monsoon floods.''"
    unfolding dsc by code_simp
  have v11: "source_url r = PNone"
    unfolding url by code_simp
  have r: "r = jakarta_record\<lparr>summary := summ\<rparr>"
    using v1 v2 v3 v4 v5 v6 v7 v8 v9 v10 v11 by (simp add: jakarta_record_def)
  show "fst (process_event ?E initial jakarta) = Inr (Some (jakarta_record\<lparr>summary := summ\<rparr>))"
    using res r by simp
  show "calls (snd (process_event ?E initial jakarta))
           = enrich_calls ?E jakarta
             @ sheet_calls ?E (jakarta_record\<lparr>summary := summ\<rparr>)
             @ gcs_calls ?E 2 (jakarta_record\<lparr>summary := summ\<rparr>)
             @ tweet_calls ?E (jakarta_record\<lparr>summary := summ\<rparr>)"
    using tr r by (simp add: numeral_2_eq_2)
qed

lemma sample_chat_replies:
  "sample_chat Classify (full_text_of jakarta) = Inr ''CRISIS''"
  "sample_chat Impact (''Description: '' @ full_text_of jakarta)
     = Inr ''People Affected: 5,000\<newline>Severity Score: 60''"
  "sample_chat Summary (full_text_of jakarta)
     = Inr ''Severe flooding in Jakarta has displaced thousands.''"
  "strip ''Severe flooding in Jakarta has displaced thousands.''
     = ''Severe flooding in Jakarta has displaced thousands.''"
  "sample_chat Donations ''Event type: Flood'' = Inr ''Red Cross, https://redcross.org''"
  by code_simp+

lemma jakarta_record_summary:
  "jakarta_record\<lparr>summary := ''Severe flooding in Jakarta has displaced thousands.''\<rparr>
     = jakarta_record"
  by (simp add: jakarta_record_def)

lemma jakarta_is_crisis:
  "fst (classify_crisis mute_env initial (full_text_of jakarta)) = ''CRISIS''"
  "fst (classify_crisis alarm_env initial (full_text_of jakarta)) = ''CRISIS''"
  unfolding mute_env_def alarm_env_def
  by (rule jakarta_classified, simp add: mute_chat_def alarm_chat_def sample_chat_replies)+

section \<open>Location extraction\<close>

text \<open>
  C1. \<open>extract_location\<close> returns the empty string when it recognises no location, and
  never \<open>None\<close>. The function returns \<open>None\<close> for the text below (as for every text);
  the location that \<open>process_event\<close> resolves from it is nevertheless \<open>Unknown\<close>.
\<close>

theorem extract_location_returns_none:
  "extract_location ''Earthquake in Nepal'' = PNone
   \<and> extract_location ''Earthquake in Nepal'' \<noteq> PStr []
   \<and> or_else (extract_location ''Earthquake in Nepal'') ''Unknown'' = ''Unknown''"
  by (simp add: extract_location_def or_else_def)

section \<open>Classification\<close>

text \<open>
  C10. \<open>classify_crisis\<close> returns \<open>CRISIS\<close> or \<open>NOT CRISIS\<close>; it returns \<open>CRISIS\<close>
  whenever the trimmed, upper-cased reply contains \<open>CRISIS\<close>, so also for the reply
  \<open>NOT CRISIS\<close>; it returns \<open>NOT CRISIS\<close> exactly when the key is absent, the call
  raises, or the reply contains no \<open>CRISIS\<close>; and \<open>process_event\<close> filters an item out
  exactly when \<open>classify_crisis\<close> returns \<open>NOT CRISIS\<close> for its text.
\<close>

theorem classify_crisis_substring:
  "fst (classify_crisis e s t) \<in> set [''CRISIS'', ''NOT CRISIS'']
   \<and> (openai_api_key e \<and> chat_completion e Classify t = Inr reply
        \<and> contains ''CRISIS'' (upper (strip reply))
      \<longrightarrow> fst (classify_crisis e s t) = ''CRISIS'')
   \<and> (openai_api_key e \<and> chat_completion e Classify t = Inr ''NOT CRISIS''
      \<longrightarrow> fst (classify_crisis e s t) = ''CRISIS'')
   \<and> (fst (classify_crisis e s t) = ''NOT CRISIS'' \<longleftrightarrow>
        (\<not> openai_api_key e
         \<or> (\<exists>exc. chat_completion e Classify t = Inl exc)
         \<or> (\<exists>reply. chat_completion e Classify t = Inr reply
                \<and> \<not> contains ''CRISIS'' (upper (strip reply)))))
   \<and> (fst (process_event e s a) = Inr None \<longleftrightarrow>
        fst (classify_crisis e s (full_text_of a)) = ''NOT CRISIS'')"
proof -
  have not_crisis: "contains ''CRISIS'' (upper (strip ''NOT CRISIS''))"
    by code_simp
  have "fst (classify_crisis e s t) \<in> set [''CRISIS'', ''NOT CRISIS'']
   \<and> (openai_api_key e \<and> chat_completion e Classify t = Inr reply
        \<and> contains ''CRISIS'' (upper (strip reply))
      \<longrightarrow> fst (classify_crisis e s t) = ''CRISIS'')
   \<and> (openai_api_key e \<and> chat_completion e Classify t = Inr ''NOT CRISIS''
      \<longrightarrow> fst (classify_crisis e s t) = ''CRISIS'')
   \<and> (fst (classify_crisis e s t) = ''NOT CRISIS'' \<longleftrightarrow>
        (\<not> openai_api_key e
         \<or> (\<exists>exc. chat_completion e Classify t = Inl exc)
         \<or> (\<exists>reply. chat_completion e Classify t = Inr reply
                \<and> \<not> contains ''CRISIS'' (upper (strip reply)))))"
    using not_crisis
    by (cases "chat_completion e Classify t")
       (auto simp: classify_crisis_def Let_def)
  with process_event_none_iff [of e s a] show ?thesis
    by blast
qed

theorem classify_crisis_substring_witness:
  "openai_api_key (reply_env ''NOT CRISIS'')
   \<and> chat_completion (reply_env ''NOT CRISIS'') Classify (full_text_of sunny) = Inr ''NOT CRISIS''
   \<and> contains ''CRISIS'' (upper (strip ''NOT CRISIS''))
   \<and> fst (classify_crisis (reply_env ''NOT CRISIS'') initial (full_text_of sunny)) = ''CRISIS''
   \<and> fst (process_event (reply_env ''NOT CRISIS'') initial sunny) \<noteq> Inr None"
proof -
  have "contains ''CRISIS'' (upper (strip ''NOT CRISIS''))"
    by code_simp
  with classify_crisis_substring
         [of "reply_env ''NOT CRISIS''" initial "full_text_of sunny" "''NOT CRISIS''" sunny]
  show ?thesis
    by simp
qed

section \<open>Items that are filtered out\<close>

text \<open>
  C4. When the classification of an item is not \<open>CRISIS\<close>, \<open>process_event\<close> returns
  normally with no record, the only call it has made is the classification request (none
  at all without a key), so nothing was enriched and no sink was written, and the loop of
  \<open>main\<close> counts the item as processed.
\<close>

theorem not_crisis_is_skipped_and_counted:
  assumes "fst (classify_crisis e s (full_text_of a)) \<noteq> ''CRISIS''"
  shows "process_event e s a = (Inr None, snd (classify_crisis e s (full_text_of a)))
         \<and> calls (snd (process_event e s a)) =
             calls s @ (if openai_api_key e then [ChatCompletion Classify (full_text_of a)] else [])
         \<and> ticks (snd (process_event e s a)) = ticks s
         \<and> main_step e (n, s) a = (n + 1, snd (classify_crisis e s (full_text_of a)))
         \<and> fst (snd (main e s (before @ a # after))) = length before + 1 + length after"
proof -
  have pe: "process_event e s a = (Inr None, snd (classify_crisis e s (full_text_of a)))"
    using assms by (rule process_event_skipped)
  have st: "snd (classify_crisis e s (full_text_of a)) =
              (if openai_api_key e then emit (ChatCompletion Classify (full_text_of a)) s else s)"
    by (rule classify_crisis_state)
  have cnt: "fst (snd (main e s (before @ a # after))) = length before + 1 + length after"
    using main_loop_count [of e 0 s "before @ a # after"]
    by (simp add: main_def split_def)
  show ?thesis
    using pe st cnt by (simp add: main_step_def)
qed

theorem not_crisis_is_skipped_and_counted_witness:
  "fst (classify_crisis (sample_env sample_chat (\<lambda>q. Inr NoResults) (\<lambda>x. Inr ())) initial (full_text_of sunny))
     \<noteq> ''CRISIS''
   \<and> fst (process_event (sample_env sample_chat (\<lambda>q. Inr NoResults) (\<lambda>x. Inr ())) initial sunny) = Inr None
   \<and> calls (snd (process_event (sample_env sample_chat (\<lambda>q. Inr NoResults) (\<lambda>x. Inr ())) initial sunny)) =
       [ChatCompletion Classify ''Sunny weekend ahead\<newline>\<newline>No news.'']
   \<and> fst (main_step (sample_env sample_chat (\<lambda>q. Inr NoResults) (\<lambda>x. Inr ())) (0, initial) sunny) = 1"
proof -
  have h: "fst (classify_crisis (sample_env sample_chat (\<lambda>q. Inr NoResults) (\<lambda>x. Inr ())) initial
                 (full_text_of sunny)) \<noteq> ''CRISIS''"
    by code_simp
  have ft: "full_text_of sunny = ''Sunny weekend ahead\<newline>\<newline>No news.''"
    by code_simp
  show ?thesis
    using h ft
      not_crisis_is_skipped_and_counted
        [OF h, of 0 "[]" "[]"]
    by (simp add: classify_crisis_state)
qed

section \<open>Geocoding failures\<close>

text \<open>
  C8. For an item that has passed classification: when the geocoder raises or returns no
  result for the resolved location, \<open>geocode\<close> returns \<open>(0.0, 0.0)\<close> instead of failing,
  \<open>process_event\<close> still assembles a record, whose coordinates are \<open>(0.0, 0.0)\<close>, and
  goes on to both sinks: the calls it makes after the enrichment requests are the append
  of the record's row to the sheet and the upload of the record to the bucket (each when
  that sink is configured), then the post.
\<close>

theorem geocoding_failure_is_isolated:
  assumes crisis: "fst (classify_crisis e s (full_text_of a)) = ''CRISIS''"
      and fails: "geocoding_fails (opencage e (or_else (get a ''location'') ''Unknown''))"
  shows "\<exists>r. fst (process_event e s a) = Inr (Some r)
           \<and> lat r = 0 \<and> lng r = 0
           \<and> fst (geocode e s (location r)) = (0, 0)
           \<and> calls (snd (process_event e s a)) =
               calls s @ enrich_calls e a @ sheet_calls e r @ gcs_calls e (ticks s + 2) r
                 @ tweet_calls e r
           \<and> (google_libraries e \<and> google_sheet_credentials e \<longrightarrow>
                 SheetAppend (row_of r)
                   \<in> set (drop (length (calls s)) (calls (snd (process_event e s a)))))
           \<and> (storage_library e \<and> gcs_bucket_name e \<longrightarrow>
                 GcsUpload (object_key (utcnow e (ticks s + 2)) (event_id r)) r
                   \<in> set (drop (length (calls s)) (calls (snd (process_event e s a)))))"
proof -
  from process_event_crisis [OF crisis]
  obtain r where
    res: "fst (process_event e s a) = Inr (Some r)" and
    tr: "calls (snd (process_event e s a)) =
           calls s @ enrich_calls e a @ sheet_calls e r @ gcs_calls e (ticks s + 2) r
             @ tweet_calls e r" and
    loc: "location r = or_else (get a ''location'') ''Unknown''" and
    geo: "(lat r, lng r) = fst (geocode e s (location r))"
    by blast
  have zero: "fst (geocode e s (location r)) = (0, 0)"
    using fails loc by (simp add: geocode_fails)
  have coords: "lat r = 0 \<and> lng r = 0"
    using geo zero by simp
  have sheet: "SheetAppend (row_of r)
                 \<in> set (drop (length (calls s)) (calls (snd (process_event e s a))))"
    if "google_libraries e \<and> google_sheet_credentials e"
    using that tr by (simp add: sheet_calls_def)
  have gcs: "GcsUpload (object_key (utcnow e (ticks s + 2)) (event_id r)) r
               \<in> set (drop (length (calls s)) (calls (snd (process_event e s a))))"
    if "storage_library e \<and> gcs_bucket_name e"
    using that tr by (simp add: gcs_calls_def)
  show ?thesis
    using res coords zero tr sheet gcs by blast
qed

theorem geocoding_failure_is_isolated_witness:
  "fst (classify_crisis no_geocoder_env initial (full_text_of jakarta)) = ''CRISIS''
   \<and> opencage no_geocoder_env (or_else (get jakarta ''location'') ''Unknown'') = Inl ApiError
   \<and> geocoding_fails (opencage no_geocoder_env (or_else (get jakarta ''location'') ''Unknown''))
   \<and> fst (process_event no_geocoder_env initial jakarta) = Inr (Some jakarta_record)
   \<and> lat jakarta_record = 0 \<and> lng jakarta_record = 0
   \<and> SheetAppend (row_of jakarta_record)
        \<in> set (calls (snd (process_event no_geocoder_env initial jakarta)))
   \<and> GcsUpload (object_key (utcnow no_geocoder_env 2) (event_id jakarta_record)) jakarta_record
        \<in> set (calls (snd (process_event no_geocoder_env initial jakarta)))"
proof -
  have h1: "fst (classify_crisis no_geocoder_env initial (full_text_of jakarta)) = ''CRISIS''"
    unfolding no_geocoder_env_def using sample_chat_replies(1) by (rule jakarta_classified)
  have h0: "opencage no_geocoder_env (or_else (get jakarta ''location'') ''Unknown'') = Inl ApiError"
    by (simp add: no_geocoder_env_def)
  have h2: "geocoding_fails (opencage no_geocoder_env (or_else (get jakarta ''location'') ''Unknown''))"
    by (simp add: h0 geocoding_fails_def)
  have geo: "geocoding_fails (Inl ApiError :: error + geo_data)"
    by (simp add: geocoding_fails_def)
  have run: "fst (process_event no_geocoder_env initial jakarta) = Inr (Some jakarta_record)"
    using jakarta_run(1) [OF sample_chat_replies geo, of "\<lambda>text. Inr ()"]
    by (simp add: no_geocoder_env_def jakarta_record_summary)
  from geocoding_failure_is_isolated [OF h1 h2] run
  have "lat jakarta_record = 0 \<and> lng jakarta_record = 0
      \<and> SheetAppend (row_of jakarta_record)
           \<in> set (calls (snd (process_event no_geocoder_env initial jakarta)))
      \<and> GcsUpload (object_key (utcnow no_geocoder_env 2) (event_id jakarta_record)) jakarta_record
           \<in> set (calls (snd (process_event no_geocoder_env initial jakarta)))"
    by (auto simp: no_geocoder_env_def numeral_2_eq_2)
  with h1 h0 h2 run show ?thesis
    by blast
qed

section \<open>Social posts\<close>

lemma status_texts_append: "status_texts (xs @ ys) = status_texts xs @ status_texts ys"
  by (induction xs rule: status_texts.induct) simp_all

lemma status_texts_stages:
  "status_texts (enrich_calls e a) = []"
  "status_texts (sheet_calls e r) = []"
  "status_texts (gcs_calls e n r) = []"
  by (simp_all add: enrich_calls_def sheet_calls_def gcs_calls_def split: sum.splits)

lemma tweet_text_defined:
  "donation_links r \<noteq> [] \<Longrightarrow> tweet_text r = Inr (projr (tweet_text r))"
  by (cases "donation_links r") (simp_all add: tweet_text_def)

lemma tweet_crisis_posts:
  assumes "twitter_credentials e" and "tweepy_installed e" and "tweet_text r = Inr full"
  shows "tweet_calls e r = [UpdateStatus (take 280 full)]"
  using assms by (simp add: tweet_calls_def)

lemma tweet_text_parts:
  assumes "tweet_text r = Inr full"
  shows "contains (location r) full"
    and "contains (str_int (people_affected r)) full"
    and "contains (event_type r) full"
    and "contains (hd (split newline (summary r))) full"
    and "contains (hd (donation_links r)) full"
proof -
  from assms obtain link rest where links: "donation_links r = link # rest"
    by (cases "donation_links r") (auto simp: tweet_text_def)
  with assms have full: "full = siren # '' Crisis in '' @ location r @ '': ''
        @ str_int (people_affected r) @ '' affected by '' @ event_type r @ [newline]
        @ summary r @ [newline] @ ''Help: '' @ link"
    by (simp add: tweet_text_def)
  have "contains (location r) ((siren # '' Crisis in '') @ location r @ ('': ''
        @ str_int (people_affected r) @ '' affected by '' @ event_type r @ [newline]
        @ summary r @ [newline] @ ''Help: '' @ link))"
    by (rule contains_middle)
  then show "contains (location r) full"
    by (simp add: full)
  have "contains (str_int (people_affected r)) ((siren # '' Crisis in '' @ location r @ '': '')
        @ str_int (people_affected r) @ ('' affected by '' @ event_type r @ [newline]
        @ summary r @ [newline] @ ''Help: '' @ link))"
    by (rule contains_middle)
  then show "contains (str_int (people_affected r)) full"
    by (simp add: full)
  have "contains (event_type r) ((siren # '' Crisis in '' @ location r @ '': ''
        @ str_int (people_affected r) @ '' affected by '') @ event_type r @ ([newline]
        @ summary r @ [newline] @ ''Help: '' @ link))"
    by (rule contains_middle)
  then show "contains (event_type r) full"
    by (simp add: full)
  have "contains (summary r) ((siren # '' Crisis in '' @ location r @ '': ''
        @ str_int (people_affected r) @ '' affected by '' @ event_type r @ [newline])
        @ summary r @ ([newline] @ ''Help: '' @ link))"
    by (rule contains_middle)
  then have summ: "contains (summary r) full"
    by (simp add: full)
  obtain q where q: "summary r = hd (split newline (summary r)) @ q"
    using hd_split_prefix [of "summary r" newline] by blast
  have "contains (hd (split newline (summary r))) ([] @ hd (split newline (summary r)) @ q)"
    by (rule contains_middle)
  then have "contains (hd (split newline (summary r))) (summary r)"
    using q by simp
  then show "contains (hd (split newline (summary r))) full"
    using summ by (rule contains_trans)
  have "contains link ((siren # '' Crisis in '' @ location r @ '': ''
        @ str_int (people_affected r) @ '' affected by '' @ event_type r @ [newline]
        @ summary r @ [newline] @ ''Help: '') @ link @ [])"
    by (rule contains_middle)
  then show "contains (hd (donation_links r)) full"
    by (simp add: full links)
qed

lemma post_crisis_tweet_calls:
  assumes "twitter_credentials e" and "tweepy_installed e" and "tweet_text r = Inr full"
  shows "calls (snd (post_crisis_tweet e s r)) = calls s @ [UpdateStatus (take 280 full)]"
  using assms by (simp add: post_crisis_tweet_def)

text \<open>
  C9, as the claim states it, fails: a post is cut to 280 characters, and what is cut off
  is no longer in it. With a summary of 300 characters the pipeline dispatches
  \<open>long_record\<close> and posts the first 280 characters of its text, which do not contain the
  record's first donation link.
\<close>

theorem social_post_always_complete_counterexample:
  "fst (process_event long_summary_env initial jakarta) = Inr (Some long_record)
   \<and> status_texts (calls (snd (process_event long_summary_env initial jakarta)))
       = [take 280 (projr (tweet_text long_record))]
   \<and> \<not> contains (hd (donation_links long_record)) (take 280 (projr (tweet_text long_record)))"
proof -
  have cl: "long_chat Classify (full_text_of jakarta) = Inr ''CRISIS''"
    by code_simp
  have im: "long_chat Impact (''Description: '' @ full_text_of jakarta)
              = Inr ''People Affected: 5,000\<newline>Severity Score: 60''"
    by (simp add: long_chat_def sample_chat_def)
  have su: "long_chat Summary (full_text_of jakarta) = Inr (replicate 300 (CHR ''x''))"
    by (simp add: long_chat_def)
  have st: "strip (replicate 300 (CHR ''x'')) = replicate 300 (CHR ''x'')"
    by code_simp
  have dn: "long_chat Donations ''Event type: Flood'' = Inr ''Red Cross, https://redcross.org''"
    by (simp add: long_chat_def sample_chat_def)
  have geo: "geocoding_fails (Inr NoResults)"
    by (simp add: geocoding_fails_def)
  note run = jakarta_run [OF cl im su st dn geo, of "\<lambda>text. Inr ()"]
  have links: "donation_links long_record \<noteq> []"
    by (simp add: long_record_def jakarta_record_def)
  have posts: "tweet_calls long_summary_env long_record
                 = [UpdateStatus (take 280 (projr (tweet_text long_record)))]"
    using tweet_text_defined [OF links]
    by (intro tweet_crisis_posts) (simp_all add: long_summary_env_def)
  have cut: "\<not> contains (hd (donation_links long_record))
               (take 280 (projr (tweet_text long_record)))"
    by code_simp
  show ?thesis
    using run posts cut
    by (simp add: long_summary_env_def long_record_def status_texts_append status_texts_stages)
qed

text \<open>
  C9, amended. When the Twitter credentials and the library are present and the record
  has a donation link, the text posted (by \<open>tweet_crisis\<close> and by \<open>post_crisis_tweet\<close>)
  is the first 280 characters of the siren line with the location, the number of people
  and the event type, the summary, and the line with the first link; it has at most 280
  characters; when the whole text has at most 280 characters, the post contains the
  location, the number of people, the event type, the first line of the summary and the
  first link. \<open>tweet_crisis\<close> returns normally whatever the posting service does, and in
  \<open>process_event\<close> the post is the last call.
\<close>

theorem social_post_is_truncated_text:
  assumes creds: "twitter_credentials e" and lib: "tweepy_installed e"
      and links: "donation_links r = link # rest"
  shows "\<exists>full.
           full = siren # '' Crisis in '' @ location r @ '': '' @ str_int (people_affected r)
                    @ '' affected by '' @ event_type r @ [newline] @ summary r @ [newline]
                    @ ''Help: '' @ link
         \<and> tweet_text r = Inr full
         \<and> fst (tweet_crisis e s r) = Inr ()
         \<and> calls (snd (tweet_crisis e s r)) = calls s @ [UpdateStatus (take 280 full)]
         \<and> calls (snd (post_crisis_tweet e s r)) = calls s @ [UpdateStatus (take 280 full)]
         \<and> length (take 280 full) \<le> 280
         \<and> (length full \<le> 280 \<longrightarrow>
               contains (location r) (take 280 full)
             \<and> contains (str_int (people_affected r)) (take 280 full)
             \<and> contains (event_type r) (take 280 full)
             \<and> contains (hd (split newline (summary r))) (take 280 full)
             \<and> contains link (take 280 full))
         \<and> (fst (classify_crisis e s (full_text_of a)) = ''CRISIS''
              \<and> fst (process_event e s a) = Inr (Some r) \<longrightarrow>
               last (calls (snd (process_event e s a))) = UpdateStatus (take 280 full))"
proof -
  define full where "full = siren # '' Crisis in '' @ location r @ '': ''
      @ str_int (people_affected r) @ '' affected by '' @ event_type r @ [newline]
      @ summary r @ [newline] @ ''Help: '' @ link"
  have tt: "tweet_text r = Inr full"
    using links by (simp add: tweet_text_def full_def)
  have posts: "tweet_calls e r = [UpdateStatus (take 280 full)]"
    using creds lib tt by (rule tweet_crisis_posts)
  have c1: "calls (snd (tweet_crisis e s r)) = calls s @ [UpdateStatus (take 280 full)]"
    using posts by (simp add: tweet_crisis_calls)
  have c2: "calls (snd (post_crisis_tweet e s r)) = calls s @ [UpdateStatus (take 280 full)]"
    using creds lib tt by (rule post_crisis_tweet_calls)
  have parts: "contains (location r) (take 280 full)
             \<and> contains (str_int (people_affected r)) (take 280 full)
             \<and> contains (event_type r) (take 280 full)
             \<and> contains (hd (split newline (summary r))) (take 280 full)
             \<and> contains link (take 280 full)"
    if "length full \<le> 280"
    using that tweet_text_parts [OF tt] links by simp
  have lastc: "last (calls (snd (process_event e s a))) = UpdateStatus (take 280 full)"
    if crisis: "fst (classify_crisis e s (full_text_of a)) = ''CRISIS''"
       and res: "fst (process_event e s a) = Inr (Some r)"
  proof -
    from process_event_crisis [OF crisis] obtain r' where
      r': "fst (process_event e s a) = Inr (Some r')" and
      tr: "calls (snd (process_event e s a)) =
             calls s @ enrich_calls e a @ sheet_calls e r' @ gcs_calls e (ticks s + 2) r'
               @ tweet_calls e r'"
      by blast
    from r' res have "r' = r" by simp
    with tr posts show ?thesis by simp
  qed
  show ?thesis
    using full_def tt c1 c2 parts lastc tweet_crisis_result [of e s r]
    by (intro exI [of _ full]) simp
qed

theorem social_post_is_truncated_text_witness:
  "twitter_credentials failing_post_env \<and> tweepy_installed failing_post_env
   \<and> donation_links jakarta_record = ''Red Cross'' # [''https://redcross.org'']
   \<and> length (projr (tweet_text jakarta_record)) \<le> 280
   \<and> fst (classify_crisis failing_post_env initial (full_text_of jakarta)) = ''CRISIS''
   \<and> fst (process_event failing_post_env initial jakarta) = Inr (Some jakarta_record)
   \<and> update_status failing_post_env (take 280 (projr (tweet_text jakarta_record))) = Inl ApiError
   \<and> last (calls (snd (process_event failing_post_env initial jakarta)))
       = UpdateStatus (take 280 (projr (tweet_text jakarta_record)))
   \<and> contains ''Red Cross'' (take 280 (projr (tweet_text jakarta_record)))"
proof -
  have h1: "twitter_credentials failing_post_env" and h2: "tweepy_installed failing_post_env"
    by (simp_all add: failing_post_env_def)
  have h3: "donation_links jakarta_record = ''Red Cross'' # [''https://redcross.org'']"
    by (simp add: jakarta_record_def)
  have h4: "length (projr (tweet_text jakarta_record)) \<le> 280"
    by code_simp
  have h5: "fst (classify_crisis failing_post_env initial (full_text_of jakarta)) = ''CRISIS''"
    unfolding failing_post_env_def using sample_chat_replies(1) by (rule jakarta_classified)
  have geo: "geocoding_fails (Inr NoResults)"
    by (simp add: geocoding_fails_def)
  have h6: "fst (process_event failing_post_env initial jakarta) = Inr (Some jakarta_record)"
    using jakarta_run(1) [OF sample_chat_replies geo, of "\<lambda>text. Inl ApiError"]
    by (simp add: failing_post_env_def jakarta_record_summary)
  have h7: "update_status failing_post_env (take 280 (projr (tweet_text jakarta_record)))
              = Inl ApiError"
    by (simp add: failing_post_env_def)
  from social_post_is_truncated_text [OF h1 h2 h3, of initial jakarta]
  obtain full where
    tt: "tweet_text jakarta_record = Inr full" and
    parts: "length full \<le> 280 \<longrightarrow> contains ''Red Cross'' (take 280 full)" and
    lastc: "fst (classify_crisis failing_post_env initial (full_text_of jakarta)) = ''CRISIS''
              \<and> fst (process_event failing_post_env initial jakarta) = Inr (Some jakarta_record)
            \<longrightarrow> last (calls (snd (process_event failing_post_env initial jakarta)))
                  = UpdateStatus (take 280 full)"
    by blast
  from tt have full: "projr (tweet_text jakarta_record) = full"
    by simp
  show ?thesis
    using h1 h2 h3 h4 h5 h6 h7 parts lastc unfolding full by blast
qed

section \<open>Impact estimation\<close>

lemma not_both_keys: "\<not> (prefix ''people'' k \<and> prefix ''severity'' k)"
  by (cases k) auto

lemma py_int_spells:
  "py_int maxd ds = (if spells_number maxd ds then Inr (int_of_digits ds) else Inl ValueError)"
  by (simp add: py_int_def spells_number_def)

lemma impact_line_cases:
  "impact_line maxd (p, v) line =
     (if people_line line then (digits_number maxd (value_of line), v)
      else if severity_line line then (p, digits_number maxd (value_of line))
      else (p, v))"
  by (simp add: impact_line_def people_line_def severity_line_def key_of_def value_of_def
        digits_number_def py_int_spells Let_def)

lemma last_value_snoc:
  "last_value maxd P (ls @ [line]) =
     (if P line then digits_number maxd (value_of line) else last_value maxd P ls)"
  by (simp add: last_value_def)

lemma last_value_Nil: "last_value maxd P [] = 0"
  by (simp add: last_value_def)

lemma impact_loop:
  "foldl (impact_line maxd) (0, 0) ls
     = (last_value maxd people_line ls, last_value maxd severity_line ls)"
proof (induction ls rule: rev_induct)
  case Nil
  then show ?case by (simp add: last_value_Nil)
next
  case (snoc line ls)
  have excl: "\<not> (people_line line \<and> severity_line line)"
    using not_both_keys [of "key_of line"] by (simp add: people_line_def severity_line_def)
  show ?case
    using snoc.IH excl by (auto simp: impact_line_cases last_value_snoc)
qed

lemma impact_line_ignored:
  assumes "\<not> people_line line" and "\<not> severity_line line"
  shows "impact_line maxd acc line = acc"
  using assms by (cases acc) (simp add: impact_line_cases)

lemma digit_value_nonneg: "isdecimal c \<Longrightarrow> 0 \<le> digit_value c"
  by (simp add: isdecimal_def digit_value_def)

lemma foldl_digits_nonneg:
  "0 \<le> acc \<Longrightarrow> list_all isdecimal ds \<Longrightarrow>
     0 \<le> foldl (\<lambda>acc c. 10 * acc + digit_value c) acc ds"
proof (induction ds arbitrary: acc)
  case Nil
  then show ?case by simp
next
  case (Cons d ds)
  from Cons.prems have "0 \<le> 10 * acc + digit_value d"
    using digit_value_nonneg [of d] by simp
  with Cons show ?case by simp
qed

lemma digits_number_nonneg: "0 \<le> digits_number maxd v"
proof (cases "spells_number maxd (filter isdigit v)")
  case True
  then have "list_all isdecimal (filter isdigit v)"
    by (simp add: spells_number_def)
  then have "0 \<le> int_of_digits (filter isdigit v)"
    unfolding int_of_digits_def by (intro foldl_digits_nonneg) simp_all
  then show ?thesis
    by (simp add: digits_number_def)
next
  case False
  then show ?thesis
    by (simp add: digits_number_def)
qed

lemma last_value_nonneg: "0 \<le> last_value maxd P ls"
  by (simp add: last_value_def digits_number_nonneg split: list.splits)

lemma estimate_impact_nonneg:
  "0 \<le> fst (fst (estimate_impact e s t)) \<and> 0 \<le> snd (fst (estimate_impact e s t))"
  by (simp add: estimate_impact_def Let_def impact_loop last_value_nonneg split: sum.splits)

lemma space_not_colon: "isspace c \<Longrightarrow> c \<noteq> colon"
  by (auto simp: isspace_def colon_def)

lemma space_not_digit: "isspace c \<Longrightarrow> \<not> isdigit c"
  by (auto simp: isspace_def isdigit_def isdecimal_def)

lemma lower_char_space: "isspace c \<Longrightarrow> lower_char c = c"
  by (auto simp: isspace_def lower_char_def)

lemma lower_blank: "list_all isspace b \<Longrightarrow> list_all isspace (lower b)"
  by (induction b) (simp_all add: lower_def lower_char_space)

lemma blank_no_colon: "list_all isspace b \<Longrightarrow> colon \<notin> set b"
  using space_not_colon by (auto simp: list_all_iff)

lemma key_line_blank_left:
  assumes "list_all isspace b"
  shows "key_of (b @ l) = key_of l" and "value_of (b @ l) = value_of l"
    and "colon \<in> set (b @ l) \<longleftrightarrow> colon \<in> set l"
proof -
  have nc: "\<And>c. c \<in> set b \<Longrightarrow> c \<noteq> colon"
    using assms space_not_colon by (auto simp: list_all_iff)
  have tw: "takeWhile (\<lambda>c. c \<noteq> colon) (b @ l) = b @ takeWhile (\<lambda>c. c \<noteq> colon) l"
    using nc by (intro takeWhile_append2) simp
  have dw: "dropWhile (\<lambda>c. c \<noteq> colon) (b @ l) = dropWhile (\<lambda>c. c \<noteq> colon) l"
    using nc by (intro dropWhile_append2) simp
  have "strip (lower b @ lower (takeWhile (\<lambda>c. c \<noteq> colon) l))
          = strip (lower (takeWhile (\<lambda>c. c \<noteq> colon) l))"
    using assms by (intro strip_append_left lower_blank)
  then show "key_of (b @ l) = key_of l"
    by (simp add: key_of_def tw lower_def)
  show "value_of (b @ l) = value_of l"
    by (simp add: value_of_def dw)
  show "colon \<in> set (b @ l) \<longleftrightarrow> colon \<in> set l"
    using blank_no_colon [OF assms] by simp
qed

lemma key_line_blank_right:
  assumes "list_all isspace b" and "colon \<in> set l"
  shows "key_of (l @ b) = key_of l"
    and "digits_number maxd (value_of (l @ b)) = digits_number maxd (value_of l)"
proof -
  have ex: "colon \<in> set l" "\<not> colon \<noteq> colon"
    using assms(2) by simp_all
  have tw: "takeWhile (\<lambda>c. c \<noteq> colon) (l @ b) = takeWhile (\<lambda>c. c \<noteq> colon) l"
    using ex by (rule takeWhile_append1)
  have dw: "dropWhile (\<lambda>c. c \<noteq> colon) (l @ b) = dropWhile (\<lambda>c. c \<noteq> colon) l @ b"
    using ex by (rule dropWhile_append1)
  have ne: "dropWhile (\<lambda>c. c \<noteq> colon) l \<noteq> []"
    using assms(2) by simp
  have nd: "filter isdigit b = []"
    using assms(1) space_not_digit by (auto simp: list_all_iff filter_empty_conv)
  show "key_of (l @ b) = key_of l"
    by (simp add: key_of_def tw)
  have "value_of (l @ b) = value_of l @ b"
    using ne by (simp add: value_of_def dw)
  then show "digits_number maxd (value_of (l @ b)) = digits_number maxd (value_of l)"
    using nd by (simp add: digits_number_def)
qed

lemma readings_strip:
  assumes P: "\<And>line. P line \<longleftrightarrow> colon \<in> set line \<and> prefix k (key_of line)"
  shows "readings maxd P (fragments Q (strip t)) = readings maxd P (fragments Q t)"
proof (rule fragments_strip_invariant)
  show "readings maxd P (a @ b) = readings maxd P a @ readings maxd P b" for a b
    by (simp add: readings_def)
  show "readings maxd P [l] = []" if "list_all isspace l" for l
    using blank_no_colon [OF that] by (simp add: readings_def P)
  show "readings maxd P [b @ l] = readings maxd P [l]" if "list_all isspace b" for b l
    using key_line_blank_left [OF that, of l] by (simp add: readings_def P)
  show "readings maxd P [l @ b] = readings maxd P [l]" if b: "list_all isspace b" for b l
  proof (cases "colon \<in> set l")
    case True
    then show ?thesis
      using key_line_blank_right [OF b True] by (simp add: readings_def P)
  next
    case False
    then show ?thesis
      using blank_no_colon [OF b] by (simp add: readings_def P)
  qed
qed

lemma last_value_readings:
  "last_value maxd P ls = (if readings maxd P ls = [] then 0 else last (readings maxd P ls))"
proof (induction ls rule: rev_induct)
  case Nil
  then show ?case by (simp add: last_value_def readings_def)
next
  case (snoc l ls)
  then show ?case by (simp add: last_value_snoc readings_def)
qed

lemma last_value_strip:
  assumes "\<And>line. P line \<longleftrightarrow> colon \<in> set line \<and> prefix k (key_of line)"
  shows "last_value maxd P (split newline (strip t)) = last_value maxd P (split newline t)"
  using readings_strip [OF assms, of maxd "\<lambda>c. c = newline" t]
  by (simp add: last_value_readings split_fragments)

lemma impact_of_reply:
  "foldl (impact_line maxd) (0, 0) (split newline (strip reply))
     = (last_value maxd people_line (split newline reply),
        last_value maxd severity_line (split newline reply))"
proof -
  have "last_value maxd people_line (split newline (strip reply))
          = last_value maxd people_line (split newline reply)"
    by (rule last_value_strip [of _ "''people''"]) (simp add: people_line_def)
  moreover have "last_value maxd severity_line (split newline (strip reply))
          = last_value maxd severity_line (split newline reply)"
    by (rule last_value_strip [of _ "''severity''"]) (simp add: severity_line_def)
  ultimately show ?thesis
    by (simp add: impact_loop)
qed

text \<open>
  C2, as the claim states it, fails: the score is the number that the reply states and
  is not capped. When the service states a severity of 500, \<open>estimate_impact\<close> returns
  500 and the assembled record carries it.
\<close>

theorem severity_score_bound_counterexample:
  "fst (estimate_impact alarm_env initial (full_text_of jakarta)) = (12, 500)
   \<and> \<not> snd (fst (estimate_impact alarm_env initial (full_text_of jakarta))) \<le> 100
   \<and> map_sum id (map_option severity_score) (fst (process_event alarm_env initial jakarta))
       = Inr (Some 500)"
proof -
  have "foldl (impact_line 4300) (0, 0)
          (split newline (strip ''People Affected: 12\<newline>Severity Score: 500'')) = (12, 500)"
    by code_simp
  then have imp: "fst (estimate_impact alarm_env initial (full_text_of jakarta)) = (12, 500)"
    using estimate_impact_reply
            [of alarm_env "full_text_of jakarta" "''People Affected: 12\<newline>Severity Score: 500''"
                initial]
    by (simp add: alarm_env_def alarm_chat_def)
  from process_event_crisis [OF jakarta_is_crisis(2)] obtain r where
    res: "fst (process_event alarm_env initial jakarta) = Inr (Some r)" and
    sev: "(people_affected r, severity_score r)
            = fst (estimate_impact alarm_env initial (full_text_of jakarta))"
    by blast
  from res sev imp show ?thesis
    by simp
qed

text \<open>
  C2, amended. For every reply of the completion service, and when there is none, the
  two numbers that \<open>estimate_impact\<close> returns are integers that are not negative, and
  so are \<open>people_affected\<close> and \<open>severity_score\<close> of every assembled record. The
  severity score is not confined to the range from 0 to 100: the reply
  \<open>Severity Score: 500\<close> gives the score 500.
\<close>

theorem impact_is_nonnegative:
  "0 \<le> fst (fst (estimate_impact e s t)) \<and> 0 \<le> snd (fst (estimate_impact e s t))
   \<and> (fst (process_event e s a) = Inr (Some r) \<longrightarrow>
         0 \<le> people_affected r \<and> 0 \<le> severity_score r)
   \<and> fst (estimate_impact (reply_env ''Severity Score: 500'') s t) = (0, 500)"
proof -
  have "0 \<le> people_affected r \<and> 0 \<le> severity_score r"
    if res: "fst (process_event e s a) = Inr (Some r)"
  proof -
    have crisis: "fst (classify_crisis e s (full_text_of a)) = ''CRISIS''"
      using res by (rule process_event_some_crisis)
    from process_event_crisis [OF crisis] obtain r' where
      r': "fst (process_event e s a) = Inr (Some r')" and
      imp: "(people_affected r', severity_score r') = fst (estimate_impact e s (full_text_of a))"
      by blast
    from r' res have "r' = r" by simp
    with imp estimate_impact_nonneg [of e s "full_text_of a"] show ?thesis
      by (metis fst_conv snd_conv)
  qed
  moreover have "foldl (impact_line 4300) (0, 0) (split newline (strip ''Severity Score: 500''))
                   = (0, 500)"
    by code_simp
  then have "fst (estimate_impact (reply_env ''Severity Score: 500'') s t) = (0, 500)"
    by (simp add: estimate_impact_reply)
  ultimately show ?thesis
    using estimate_impact_nonneg [of e s t] by blast
qed

theorem impact_is_nonnegative_witness:
  "fst (process_event quiet_env initial jakarta) = Inr (Some jakarta_record)
   \<and> 0 \<le> people_affected jakarta_record \<and> 0 \<le> severity_score jakarta_record
   \<and> 0 \<le> snd (fst (estimate_impact quiet_env initial (full_text_of jakarta)))
   \<and> fst (estimate_impact (reply_env ''Severity Score: 500'') initial (full_text_of jakarta))
       = (0, 500)"
proof -
  have geo: "geocoding_fails (Inr NoResults)"
    by (simp add: geocoding_fails_def)
  have run: "fst (process_event quiet_env initial jakarta) = Inr (Some jakarta_record)"
    using jakarta_run(1) [OF sample_chat_replies geo, of "\<lambda>text. Inr ()"]
    by (simp add: quiet_env_def jakarta_record_summary)
  with impact_is_nonnegative [of quiet_env initial "full_text_of jakarta" jakarta jakarta_record]
  show ?thesis
    by blast
qed

text \<open>
  C5. With the key present and a reply from the service, \<open>estimate_impact\<close> returns the
  line-by-line reading of the reply: every line is looked at, keys are compared
  lower-cased by the prefixes \<open>people\<close> and \<open>severity\<close>, only the digit characters of a
  value are kept before it is parsed, what cannot be parsed gives 0, and the last line of
  a field decides. The two replies of the specification give \<open>(1200, 75)\<close> and \<open>(0, 0)\<close>. A
  superscript is a digit character that is kept and that \<open>int\<close> refuses: \<open>1200 per km\<close>
  followed by a superscript two gives 0 people, and so does a severity of 7 followed by
  one. A line of people or of severity whose value has no digit character sets its field
  to 0 and leaves the other one. A line that speaks of neither field changes nothing,
  wherever it stands.
\<close>

theorem estimate_impact_parses_lines:
  "(openai_api_key e \<and> chat_completion e Impact (''Description: '' @ t) = Inr reply \<longrightarrow>
      fst (estimate_impact e s t) = spec_impact (int_max_str_digits e) reply)
   \<and> fst (estimate_impact (reply_env ''People Affected: 1,200\<newline>Severity Score: 75'') s t)
       = (1200, 75)
   \<and> fst (estimate_impact (reply_env ''People Affected: many\<newline>Severity: high'') s t)
       = (0, 0)
   \<and> fst (estimate_impact
            (reply_env (''People Affected: 1200 per km'' @ CHR 0xB2 # ''\<newline>Severity Score: 7''))
            s t) = (0, 7)
   \<and> fst (estimate_impact
            (reply_env (''People Affected: 40\<newline>Severity Score: 7'' @ [CHR 0xB2])) s t) = (40, 0)
   \<and> (people_line pl \<and> filter isdigit (value_of pl) = [] \<longrightarrow>
        impact_line maxd (p, v) pl = (0, v))
   \<and> (severity_line sl \<and> filter isdigit (value_of sl) = [] \<longrightarrow>
        impact_line maxd (p, v) sl = (p, 0))
   \<and> (\<not> people_line line \<and> \<not> severity_line line \<longrightarrow>
        foldl (impact_line maxd) acc (before @ line # after)
          = foldl (impact_line maxd) acc (before @ after))"
proof -
  have gen: "fst (estimate_impact e s t) = spec_impact (int_max_str_digits e) reply"
    if "openai_api_key e \<and> chat_completion e Impact (''Description: '' @ t) = Inr reply"
    using that by (simp add: estimate_impact_reply impact_of_reply spec_impact_def)
  have "foldl (impact_line 4300) (0, 0)
          (split newline (strip ''People Affected: 1,200\<newline>Severity Score: 75'')) = (1200, 75)"
    by code_simp
  then have ex1:
    "fst (estimate_impact (reply_env ''People Affected: 1,200\<newline>Severity Score: 75'') s t)
       = (1200, 75)"
    by (simp add: estimate_impact_reply)
  have "foldl (impact_line 4300) (0, 0)
          (split newline (strip ''People Affected: many\<newline>Severity: high'')) = (0, 0)"
    by code_simp
  then have ex2:
    "fst (estimate_impact (reply_env ''People Affected: many\<newline>Severity: high'') s t) = (0, 0)"
    by (simp add: estimate_impact_reply)
  have "foldl (impact_line 4300) (0, 0)
          (split newline
             (strip (''People Affected: 1200 per km'' @ CHR 0xB2 # ''\<newline>Severity Score: 7'')))
          = (0, 7)"
    by code_simp
  then have ex3:
    "fst (estimate_impact
            (reply_env (''People Affected: 1200 per km'' @ CHR 0xB2 # ''\<newline>Severity Score: 7''))
            s t) = (0, 7)"
    by (simp add: estimate_impact_reply)
  have "foldl (impact_line 4300) (0, 0)
          (split newline (strip (''People Affected: 40\<newline>Severity Score: 7'' @ [CHR 0xB2])))
          = (40, 0)"
    by code_simp
  then have ex4:
    "fst (estimate_impact
            (reply_env (''People Affected: 40\<newline>Severity Score: 7'' @ [CHR 0xB2])) s t) = (40, 0)"
    by (simp add: estimate_impact_reply)
  have nop: "impact_line maxd (p, v) pl = (0, v)"
    if "people_line pl \<and> filter isdigit (value_of pl) = []"
    using that by (simp add: impact_line_cases digits_number_def spells_number_def)
  have nos: "impact_line maxd (p, v) sl = (p, 0)"
    if "severity_line sl \<and> filter isdigit (value_of sl) = []"
  proof -
    have "\<not> people_line sl"
      using that not_both_keys [of "key_of sl"] by (simp add: people_line_def severity_line_def)
    with that show ?thesis
      by (simp add: impact_line_cases digits_number_def spells_number_def)
  qed
  have ign: "foldl (impact_line maxd) acc (before @ line # after)
               = foldl (impact_line maxd) acc (before @ after)"
    if "\<not> people_line line \<and> \<not> severity_line line"
    using that by (simp add: impact_line_ignored)
  from gen ex1 ex2 ex3 ex4 nop nos ign show ?thesis
    by blast
qed

theorem estimate_impact_parses_lines_witness:
  "openai_api_key (reply_env ''People Affected: 1,200\<newline>Severity Score: 75'')
   \<and> chat_completion (reply_env ''People Affected: 1,200\<newline>Severity Score: 75'') Impact
        (''Description: '' @ ''Flood'') = Inr ''People Affected: 1,200\<newline>Severity Score: 75''
   \<and> spec_impact 4300 ''People Affected: 1,200\<newline>Severity Score: 75'' = (1200, 75)
   \<and> fst (estimate_impact (reply_env ''People Affected: 1,200\<newline>Severity Score: 75'')
            initial ''Flood'')
       = spec_impact 4300 ''People Affected: 1,200\<newline>Severity Score: 75''
   \<and> people_line ''People Affected: many'' \<and> filter isdigit (value_of ''People Affected: many'') = []
   \<and> impact_line 4300 (3, 4) ''People Affected: many'' = (0, 4)
   \<and> severity_line ''Severity: high'' \<and> filter isdigit (value_of ''Severity: high'') = []
   \<and> impact_line 4300 (3, 4) ''Severity: high'' = (3, 0)
   \<and> \<not> people_line ''Note: 3 roads closed'' \<and> \<not> severity_line ''Note: 3 roads closed''
   \<and> foldl (impact_line 4300) (0, 0)
        ([''People: 40''] @ ''Note: 3 roads closed'' # [''Severity: 7''])
       = foldl (impact_line 4300) (0, 0) ([''People: 40''] @ [''Severity: 7''])"
proof -
  have sp: "spec_impact 4300 ''People Affected: 1,200\<newline>Severity Score: 75'' = (1200, 75)"
    by code_simp
  have pl: "people_line ''People Affected: many''
            \<and> filter isdigit (value_of ''People Affected: many'') = []"
    by code_simp
  have sl: "severity_line ''Severity: high'' \<and> filter isdigit (value_of ''Severity: high'') = []"
    by code_simp
  have nl: "\<not> people_line ''Note: 3 roads closed'' \<and> \<not> severity_line ''Note: 3 roads closed''"
    by code_simp
  from estimate_impact_parses_lines
         [of "reply_env ''People Affected: 1,200\<newline>Severity Score: 75''" "''Flood''"
             "''People Affected: 1,200\<newline>Severity Score: 75''" initial
             "''People Affected: many''" 4300 3 4 "''Severity: high''"
             "''Note: 3 roads closed''" "(0, 0)" "[''People: 40'']" "[''Severity: 7'']"]
       sp pl sl nl
  show ?thesis
    by simp
qed

section \<open>Donation suggestions\<close>

lemma trimmed_nonempty_append:
  "trimmed_nonempty (a @ b) = trimmed_nonempty a @ trimmed_nonempty b"
  by (simp add: trimmed_nonempty_def)

lemma trimmed_nonempty_eq_Nil:
  "trimmed_nonempty fs = [] \<longleftrightarrow> list_all (list_all isspace) fs"
  by (induction fs) (simp_all add: trimmed_nonempty_def strip_eq_Nil)

lemma trimmed_fragments_strip:
  "trimmed_nonempty (fragments P (strip t)) = trimmed_nonempty (fragments P t)"
proof (rule fragments_strip_invariant)
  show "trimmed_nonempty (a @ b) = trimmed_nonempty a @ trimmed_nonempty b" for a b
    by (rule trimmed_nonempty_append)
  show "trimmed_nonempty [l] = []" if "list_all isspace l" for l
    using that by (simp add: trimmed_nonempty_eq_Nil)
  show "trimmed_nonempty [b @ l] = trimmed_nonempty [l]" if "list_all isspace b" for b l
    using that by (simp add: trimmed_nonempty_def strip_append_left)
  show "trimmed_nonempty [l @ b] = trimmed_nonempty [l]" if "list_all isspace b" for b l
    using that by (simp add: trimmed_nonempty_def strip_append_right)
qed

lemma suggest_donations_spec:
  assumes "openai_api_key e" and "chat_completion e Donations (''Event type: '' @ ty) = Inr reply"
  shows "fst (suggest_donations e s ty) = spec_donations reply"
proof -
  have "split comma (replace newline comma (strip reply))
          = fragments (\<lambda>c. c = newline \<or> c = comma) (strip reply)"
    by (rule split_replace_fragments) simp
  then show ?thesis
    using assms
    by (simp add: suggest_donations_reply spec_donations_def trimmed_fragments_strip
          trimmed_nonempty_def [symmetric])
qed

lemma spec_donations_eq_Nil:
  "spec_donations reply = [] \<longleftrightarrow> list_all (\<lambda>c. isspace c \<or> c = comma) reply"
proof -
  have nl: "isspace newline"
    by (simp add: isspace_def newline_def)
  have "spec_donations reply = []
          \<longleftrightarrow> trimmed_nonempty (fragments (\<lambda>c. c = newline \<or> c = comma) reply) = []"
    by (simp add: spec_donations_def)
  also have "\<dots> \<longleftrightarrow> list_all (\<lambda>c. (c = newline \<or> c = comma) \<or> isspace c) reply"
    by (simp add: trimmed_nonempty_eq_Nil fragments_all)
  also have "\<dots> \<longleftrightarrow> list_all (\<lambda>c. isspace c \<or> c = comma) reply"
    using nl by (auto simp: list_all_iff)
  finally show ?thesis .
qed

lemma suggest_donations_cases:
  "fst (suggest_donations e s ty) =
     (if openai_api_key e then
        (case chat_completion e Donations (''Event type: '' @ ty) of
           Inl exc \<Rightarrow> fallback_links
         | Inr reply \<Rightarrow> spec_donations reply)
      else fallback_links)"
proof (cases "openai_api_key e")
  case False
  then show ?thesis by (simp add: suggest_donations_def)
next
  case True
  show ?thesis
  proof (cases "chat_completion e Donations (''Event type: '' @ ty)")
    case (Inl exc)
    with True show ?thesis by (simp add: suggest_donations_def)
  next
    case (Inr reply)
    with True show ?thesis by (simp add: suggest_donations_spec)
  qed
qed

lemma spec_donations_entries: "list_all (\<lambda>l. l \<noteq> []) (spec_donations reply)"
proof -
  have "list_all (\<lambda>l. l \<noteq> []) (trimmed_nonempty fs)" for fs
    by (simp add: trimmed_nonempty_def list_all_iff)
  then show ?thesis
    unfolding spec_donations_def list_all_iff using in_set_takeD by fast
qed

text \<open>
  C7. For a reply of the completion service, \<open>suggest_donations\<close> returns the reply cut at
  newlines and commas, with every fragment trimmed and the empty ones dropped, truncated
  to its first three entries: at most three, in the order of the reply. The reply of the
  specification yields exactly three entries, \<open>Red Cross\<close>, its address and \<open>UNHCR\<close>;
  the fourth fragment and all later ones are dropped.
\<close>

theorem suggest_donations_splits_and_truncates:
  "(openai_api_key e \<and> chat_completion e Donations (''Event type: '' @ ty) = Inr reply \<longrightarrow>
      fst (suggest_donations e s ty) = spec_donations reply
    \<and> length (fst (suggest_donations e s ty)) \<le> 3
    \<and> prefix (fst (suggest_donations e s ty))
         (trimmed_nonempty (fragments (\<lambda>c. c = newline \<or> c = comma) reply)))
   \<and> fst (suggest_donations
            (reply_env ''Red Cross, https://redcross.org\<newline>UNHCR, https://unhcr.org\<newline>Extra, https://x.org\<newline>Ignored'')
            s ty)
       = [''Red Cross'', ''https://redcross.org'', ''UNHCR'']"
proof -
  have gen: "fst (suggest_donations e s ty) = spec_donations reply
      \<and> length (fst (suggest_donations e s ty)) \<le> 3
      \<and> prefix (fst (suggest_donations e s ty))
           (trimmed_nonempty (fragments (\<lambda>c. c = newline \<or> c = comma) reply))"
    if "openai_api_key e \<and> chat_completion e Donations (''Event type: '' @ ty) = Inr reply"
    using that by (simp add: suggest_donations_spec spec_donations_def take_is_prefix)
  have "take 3 (filter (\<lambda>item. item \<noteq> [])
          (map strip (split comma (replace newline comma
             (strip ''Red Cross, https://redcross.org\<newline>UNHCR, https://unhcr.org\<newline>Extra, https://x.org\<newline>Ignored'')))))
        = [''Red Cross'', ''https://redcross.org'', ''UNHCR'']"
    by code_simp
  then have ex:
    "fst (suggest_donations
            (reply_env ''Red Cross, https://redcross.org\<newline>UNHCR, https://unhcr.org\<newline>Extra, https://x.org\<newline>Ignored'')
            s ty)
       = [''Red Cross'', ''https://redcross.org'', ''UNHCR'']"
    by (simp add: suggest_donations_reply)
  from gen ex show ?thesis
    by blast
qed

theorem suggest_donations_splits_and_truncates_witness:
  "openai_api_key (reply_env ''Oxfam\<newline>, CARE ,,MSF, WFP'')
   \<and> chat_completion (reply_env ''Oxfam\<newline>, CARE ,,MSF, WFP'') Donations
        (''Event type: '' @ ''Famine'') = Inr ''Oxfam\<newline>, CARE ,,MSF, WFP''
   \<and> spec_donations ''Oxfam\<newline>, CARE ,,MSF, WFP'' = [''Oxfam'', ''CARE'', ''MSF'']
   \<and> fst (suggest_donations (reply_env ''Oxfam\<newline>, CARE ,,MSF, WFP'') initial ''Famine'')
       = [''Oxfam'', ''CARE'', ''MSF'']"
proof -
  have sp: "spec_donations ''Oxfam\<newline>, CARE ,,MSF, WFP'' = [''Oxfam'', ''CARE'', ''MSF'']"
    by code_simp
  from suggest_donations_splits_and_truncates
         [of "reply_env ''Oxfam\<newline>, CARE ,,MSF, WFP''" "''Famine''"
             "''Oxfam\<newline>, CARE ,,MSF, WFP''" initial]
       sp
  show ?thesis
    by simp
qed

text \<open>
  C3, as the claim states it, fails: the fallback pair replaces a failed request, not an
  unusable reply. For an empty reply the list is empty, and so are the donation links of
  the assembled record.
\<close>

theorem donation_links_nonempty_counterexample:
  "fst (suggest_donations mute_env initial ''Flood'') = []
   \<and> map_sum id (map_option donation_links) (fst (process_event mute_env initial jakarta))
       = Inr (Some [])"
proof -
  have empty: "take 3 (filter (\<lambda>item. item \<noteq> [])
          (map strip (split comma (replace newline comma (strip []))))) = []"
    by code_simp
  have none: "fst (suggest_donations mute_env initial ty) = []" for ty
    using empty suggest_donations_reply [of mute_env ty "[]" initial]
    by (simp add: mute_env_def mute_chat_def)
  from process_event_crisis [OF jakarta_is_crisis(1)] obtain r where
    res: "fst (process_event mute_env initial jakarta) = Inr (Some r)" and
    don: "donation_links r = fst (suggest_donations mute_env initial (event_type r))"
    by blast
  from res don none show ?thesis
    by simp
qed

text \<open>
  C3, amended. Without the key, and when the request raises, \<open>suggest_donations\<close> returns
  exactly the fallback pair; for a reply it returns the first three trimmed, non-empty
  fragments of the reply, each of them a non-empty string, and this list is empty exactly
  when the reply consists of white space and commas only. The \<open>donation_links\<close> of an
  assembled record are the list that \<open>suggest_donations\<close> returns for its event type.
\<close>

theorem suggest_donations_fallback_or_fragments:
  "fst (suggest_donations e s ty) =
     (if openai_api_key e then
        (case chat_completion e Donations (''Event type: '' @ ty) of
           Inl exc \<Rightarrow> fallback_links
         | Inr reply \<Rightarrow> spec_donations reply)
      else fallback_links)
   \<and> fallback_links = [''https://www.directrelief.org/'', ''https://www.unhcr.org/'']
   \<and> (spec_donations reply = [] \<longleftrightarrow> list_all (\<lambda>c. isspace c \<or> c = comma) reply)
   \<and> list_all (\<lambda>l. l \<noteq> []) (spec_donations reply)
   \<and> length (spec_donations reply) \<le> 3
   \<and> (fst (process_event e s a) = Inr (Some r) \<longrightarrow>
        donation_links r = fst (suggest_donations e s (infer_event_type (full_text_of a))))"
proof -
  have rec: "donation_links r = fst (suggest_donations e s (infer_event_type (full_text_of a)))"
    if res: "fst (process_event e s a) = Inr (Some r)"
  proof -
    have crisis: "fst (classify_crisis e s (full_text_of a)) = ''CRISIS''"
      using res by (rule process_event_some_crisis)
    from process_event_crisis [OF crisis] obtain r' where
      r': "fst (process_event e s a) = Inr (Some r')" and
      ty: "event_type r' = infer_event_type (full_text_of a)" and
      don: "donation_links r' = fst (suggest_donations e s (event_type r'))"
      by blast
    from r' res have "r' = r" by simp
    with ty don show ?thesis by simp
  qed
  have len: "length (spec_donations reply) \<le> 3"
    by (simp add: spec_donations_def)
  show ?thesis
    using suggest_donations_cases [of e s ty] spec_donations_eq_Nil [of reply]
      spec_donations_entries [of reply] len rec
    by (simp add: fallback_links_def)
qed

theorem suggest_donations_fallback_or_fragments_witness:
  "fst (process_event quiet_env initial jakarta) = Inr (Some jakarta_record)
   \<and> donation_links jakarta_record
       = fst (suggest_donations quiet_env initial (infer_event_type (full_text_of jakarta)))
   \<and> fst (suggest_donations (quiet_env\<lparr>openai_api_key := False\<rparr>) initial ''Flood'')
       = [''https://www.directrelief.org/'', ''https://www.unhcr.org/'']"
proof -
  have geo: "geocoding_fails (Inr NoResults)"
    by (simp add: geocoding_fails_def)
  have run: "fst (process_event quiet_env initial jakarta) = Inr (Some jakarta_record)"
    using jakarta_run(1) [OF sample_chat_replies geo, of "\<lambda>text. Inr ()"]
    by (simp add: quiet_env_def jakarta_record_summary)
  from suggest_donations_fallback_or_fragments
         [of quiet_env initial "infer_event_type (full_text_of jakarta)" "[]" jakarta jakarta_record]
       run
  have a: "donation_links jakarta_record
             = fst (suggest_donations quiet_env initial (infer_event_type (full_text_of jakarta)))"
    by blast
  from suggest_donations_fallback_or_fragments
         [of "quiet_env\<lparr>openai_api_key := False\<rparr>" initial "''Flood''" "[]" jakarta jakarta_record]
  have b: "fst (suggest_donations (quiet_env\<lparr>openai_api_key := False\<rparr>) initial ''Flood'')
             = [''https://www.directrelief.org/'', ''https://www.unhcr.org/'']"
    by simp
  from run a b show ?thesis
    by blast
qed

end
